theory Spec2Isabelle
  imports Main "HOL-Library.Word"
begin

unbundle bit_operations_syntax

section \<open>Text: characters, trimming, lower-casing, UTF-8\<close>

text \<open>
  A Python \<open>str\<close> is a sequence of code points. The model takes \<open>string\<close>, whose
  characters are the code points 0 to 255; the classifications below are Python's
  (\<open>str.isspace\<close>, the \<open>\s\<close> and \<open>\d\<close> classes of \<open>re\<close>, \<open>str.lower\<close>) on that range.
\<close>

definition isspace :: "char \<Rightarrow> bool" where
  "isspace c = (c \<in> set [CHR 0x09, CHR 0x0A, CHR 0x0B, CHR 0x0C, CHR 0x0D,
                           CHR 0x1C, CHR 0x1D, CHR 0x1E, CHR 0x1F, CHR 0x20,
                           CHR 0x85, CHR 0xA0])"

definition isdigit :: "char \<Rightarrow> bool" where
  "isdigit c = (48 \<le> (of_char c :: nat) \<and> (of_char c :: nat) \<le> 57)"

definition isupper_AZ :: "char \<Rightarrow> bool" where
  "isupper_AZ c = (65 \<le> (of_char c :: nat) \<and> (of_char c :: nat) \<le> 90)"

definition lower_char :: "char \<Rightarrow> char" where
  "lower_char c =
     (let n = (of_char c :: nat)
      in if (65 \<le> n \<and> n \<le> 90) \<or> (192 \<le> n \<and> n \<le> 222 \<and> n \<noteq> 215)
         then char_of (n + 32) else c)"

text \<open>\<open>text.strip()\<close> and \<open>text.lower()\<close>.\<close>

definition strip :: "string \<Rightarrow> string" where
  "strip s = rev (dropWhile isspace (rev (dropWhile isspace s)))"

definition lower :: "string \<Rightarrow> string" where
  "lower s = map lower_char s"

type_synonym byte = "8 word"

text \<open>\<open>s.encode('utf-8')\<close>: one byte below 128, two bytes from 128 to 255.\<close>

definition encode_char :: "char \<Rightarrow> byte list" where
  "encode_char c =
     (let n = (of_char c :: nat)
      in if n < 128 then [of_nat n]
         else [of_nat (192 + n div 64), of_nat (128 + n mod 64)])"

definition encode_utf8 :: "string \<Rightarrow> byte list" where
  "encode_utf8 s = concat (map encode_char s)"

section \<open>SHA-256 (\<open>hashlib.sha256(...).hexdigest()\<close>)\<close>

type_synonym u32 = "32 word"

definition rotr :: "nat \<Rightarrow> u32 \<Rightarrow> u32" where
  "rotr n x = drop_bit n x OR push_bit (32 - n) x"

definition Ch :: "u32 \<Rightarrow> u32 \<Rightarrow> u32 \<Rightarrow> u32" where
  "Ch x y z = (x AND y) XOR (NOT x AND z)"

definition Maj :: "u32 \<Rightarrow> u32 \<Rightarrow> u32 \<Rightarrow> u32" where
  "Maj x y z = (x AND y) XOR (x AND z) XOR (y AND z)"

definition Sigma0 :: "u32 \<Rightarrow> u32" where
  "Sigma0 x = rotr 2 x XOR rotr 13 x XOR rotr 22 x"

definition Sigma1 :: "u32 \<Rightarrow> u32" where
  "Sigma1 x = rotr 6 x XOR rotr 11 x XOR rotr 25 x"

definition sigma0 :: "u32 \<Rightarrow> u32" where
  "sigma0 x = rotr 7 x XOR rotr 18 x XOR drop_bit 3 x"

definition sigma1 :: "u32 \<Rightarrow> u32" where
  "sigma1 x = rotr 17 x XOR rotr 19 x XOR drop_bit 10 x"

definition sha256_K :: "u32 list" where
  "sha256_K = [
    0x428A2F98, 0x71374491, 0xB5C0FBCF, 0xE9B5DBA5, 0x3956C25B, 0x59F111F1, 0x923F82A4, 0xAB1C5ED5,
    0xD807AA98, 0x12835B01, 0x243185BE, 0x550C7DC3, 0x72BE5D74, 0x80DEB1FE, 0x9BDC06A7, 0xC19BF174,
    0xE49B69C1, 0xEFBE4786, 0x0FC19DC6, 0x240CA1CC, 0x2DE92C6F, 0x4A7484AA, 0x5CB0A9DC, 0x76F988DA,
    0x983E5152, 0xA831C66D, 0xB00327C8, 0xBF597FC7, 0xC6E00BF3, 0xD5A79147, 0x06CA6351, 0x14292967,
    0x27B70A85, 0x2E1B2138, 0x4D2C6DFC, 0x53380D13, 0x650A7354, 0x766A0ABB, 0x81C2C92E, 0x92722C85,
    0xA2BFE8A1, 0xA81A664B, 0xC24B8B70, 0xC76C51A3, 0xD192E819, 0xD6990624, 0xF40E3585, 0x106AA070,
    0x19A4C116, 0x1E376C08, 0x2748774C, 0x34B0BCB5, 0x391C0CB3, 0x4ED8AA4A, 0x5B9CCA4F, 0x682E6FF3,
    0x748F82EE, 0x78A5636F, 0x84C87814, 0x8CC70208, 0x90BEFFFA, 0xA4506CEB, 0xBEF9A3F7, 0xC67178F2]"

definition sha256_H0 :: "u32 list" where
  "sha256_H0 = [0x6A09E667, 0xBB67AE85, 0x3C6EF372, 0xA54FF53A,
                0x510E527F, 0x9B05688C, 0x1F83D9AB, 0x5BE0CD19]"

text \<open>Padding: the byte 0x80, zeros up to 56 modulo 64, the bit length in 8 bytes.\<close>

definition be64 :: "nat \<Rightarrow> byte list" where
  "be64 n = map (\<lambda>i. of_nat (n div 2 ^ (8 * i) mod 256)) [7, 6, 5, 4, 3, 2, 1, 0]"

definition sha256_pad :: "byte list \<Rightarrow> byte list" where
  "sha256_pad m =
     m @ [0x80] @ replicate ((119 - length m mod 64) mod 64) 0 @ be64 (8 * length m)"

fun be_words :: "byte list \<Rightarrow> u32 list" where
  "be_words (a # b # c # d # r) =
     (push_bit 24 (ucast a) OR push_bit 16 (ucast b) OR push_bit 8 (ucast c) OR ucast d)
       # be_words r"
| "be_words _ = []"

fun blocks16 :: "nat \<Rightarrow> u32 list \<Rightarrow> u32 list list" where
  "blocks16 0 ws = []"
| "blocks16 (Suc n) ws = take 16 ws # blocks16 n (drop 16 ws)"

text \<open>
  The message schedule, built newest word first: with \<open>r\<close> holding \<open>W\<^sub>t\<^sub>-\<^sub>1, W\<^sub>t\<^sub>-\<^sub>2, ...\<close> the
  next word is \<open>\<sigma>\<^sub>1(W\<^sub>t\<^sub>-\<^sub>2) + W\<^sub>t\<^sub>-\<^sub>7 + \<sigma>\<^sub>0(W\<^sub>t\<^sub>-\<^sub>1\<^sub>5) + W\<^sub>t\<^sub>-\<^sub>1\<^sub>6\<close>.
\<close>

fun expand :: "nat \<Rightarrow> u32 list \<Rightarrow> u32 list" where
  "expand 0 r = rev r"
| "expand (Suc n) r = expand n ((sigma1 (r ! 1) + r ! 6 + sigma0 (r ! 14) + r ! 15) # r)"

definition schedule :: "u32 list \<Rightarrow> u32 list" where
  "schedule blk = expand 48 (rev blk)"

fun sha_round :: "u32 list \<Rightarrow> u32 \<times> u32 \<Rightarrow> u32 list" where
  "sha_round [a, b, c, d, e, f, g, h] (k, w) =
     (let t1 = h + Sigma1 e + Ch e f g + k + w;
          t2 = Sigma0 a + Maj a b c
      in [t1 + t2, a, b, c, d + t1, e, f, g])"
| "sha_round s _ = s"

definition compress :: "u32 list \<Rightarrow> u32 list \<Rightarrow> u32 list" where
  "compress hs blk = map2 (+) hs (foldl sha_round hs (zip sha256_K (schedule blk)))"

definition hex_digit :: "nat \<Rightarrow> char" where
  "hex_digit n = ''0123456789abcdef'' ! (n mod 16)"

definition hex32 :: "u32 \<Rightarrow> string" where
  "hex32 w = map (\<lambda>i. hex_digit (unat (drop_bit (4 * i) w AND 0xf))) [7, 6, 5, 4, 3, 2, 1, 0]"

definition sha256_hexdigest :: "byte list \<Rightarrow> string" where
  "sha256_hexdigest m =
     (let ws = be_words (sha256_pad m)
      in concat (map hex32 (foldl compress sha256_H0 (blocks16 (length ws div 16) ws))))"

section \<open>Hasher\<close>

text \<open>
  \<^verbatim>\<open>def hash_section(self, text):
      normalized = text.strip().lower()
      return hashlib.sha256(normalized.encode('utf-8')).hexdigest()\<close>
\<close>

definition normalized :: "string \<Rightarrow> string" where
  "normalized text = lower (strip text)"

definition hash_section :: "string \<Rightarrow> string" where
  "hash_section text = sha256_hexdigest (encode_utf8 (normalized text))"

section \<open>Segmenter\<close>

subsection \<open>Splitting\<close>

text \<open>Prepending a character to the first piece of a split.\<close>

fun push_char :: "char \<Rightarrow> string list \<Rightarrow> string list" where
  "push_char c [] = [[c]]"
| "push_char c (p # ps) = (c # p) # ps"

text \<open>
  \<open>re.split(pattern, text)\<close> for a pattern of the form \<open>\n(?=L)\<close>: a match is one newline
  character whose following text satisfies the lookahead \<open>L\<close>; the newline is removed, the
  text between matches is kept. The lookahead is a predicate on the rest of the text.
\<close>

fun re_split :: "(string \<Rightarrow> bool) \<Rightarrow> string \<Rightarrow> string list" where
  "re_split la [] = [[]]"
| "re_split la (c # cs) =
     (if c = CHR 0x0A \<and> la cs then [] # re_split la cs else push_char c (re_split la cs))"

text \<open>
  The lookahead \<open>[A-Z][A-Z\s&\'-]{5,80}\n\<close>: an uppercase letter, then a run of characters
  of the class, then a newline. \<open>heading_run n s\<close> matches the rest of the run and the
  newline when \<open>n\<close> characters of the run are already matched; the newline is itself in
  the class, so the run may go on over it.
\<close>

definition heading_char :: "char \<Rightarrow> bool" where
  "heading_char c = (isupper_AZ c \<or> isspace c \<or> c = CHR ''&'' \<or> c = CHR 0x27 \<or> c = CHR ''-'')"

fun heading_run :: "nat \<Rightarrow> string \<Rightarrow> bool" where
  "heading_run n [] = False"
| "heading_run n (x # xs) =
     (if 5 \<le> n \<and> x = CHR 0x0A then True
      else if n < 80 \<and> heading_char x then heading_run (Suc n) xs
      else False)"

definition la_header :: "string \<Rightarrow> bool" where
  "la_header s = (case s of [] \<Rightarrow> False | c # r \<Rightarrow> isupper_AZ c \<and> heading_run 0 r)"

text \<open>The lookahead \<open>\d+\.\s\<close>.\<close>

definition la_numbered :: "string \<Rightarrow> bool" where
  "la_numbered s =
     (takeWhile isdigit s \<noteq> [] \<and>
      (case dropWhile isdigit s of
         a # b # _ \<Rightarrow> a = CHR ''.'' \<and> isspace b
       | _ \<Rightarrow> False))"

text \<open>The lookaheads \<open>Article\s+\d+\<close> and \<open>Section\s+\d+\<close>.\<close>

definition la_word_number :: "string \<Rightarrow> string \<Rightarrow> bool" where
  "la_word_number w s =
     (take (length w) s = w \<and>
      (let r = drop (length w) s
       in takeWhile isspace r \<noteq> [] \<and>
          (case dropWhile isspace r of [] \<Rightarrow> False | d # _ \<Rightarrow> isdigit d)))"

definition la_article :: "string \<Rightarrow> bool" where
  "la_article = la_word_number ''Article''"

definition la_section :: "string \<Rightarrow> bool" where
  "la_section = la_word_number ''Section''"

definition patterns :: "(string \<Rightarrow> bool) list" where
  "patterns = [la_header, la_numbered, la_article, la_section]"

text \<open>\<open>text.split('\n\n')\<close> and \<open>text.split('\n')\<close>.\<close>

fun split_paragraphs :: "string \<Rightarrow> string list" where
  "split_paragraphs (a # b # cs) =
     (if a = CHR 0x0A \<and> b = CHR 0x0A then [] # split_paragraphs cs
      else push_char a (split_paragraphs (b # cs)))"
| "split_paragraphs cs = [cs]"

fun split_lines :: "string \<Rightarrow> string list" where
  "split_lines [] = [[]]"
| "split_lines (c # cs) =
     (if c = CHR 0x0A then [] # split_lines cs else push_char c (split_lines cs))"

text \<open>
  \<open>re.split(r'(?<=[.!?])\s+', text)\<close>: a match is a maximal run of whitespace that starts
  right after one of \<open>.\<close>, \<open>!\<close>, \<open>?\<close>. The flag says whether the previous character is one
  of these.
\<close>

definition sentence_end :: "char \<Rightarrow> bool" where
  "sentence_end c = (c = CHR ''.'' \<or> c = CHR ''!'' \<or> c = CHR ''?'')"

function split_sentences_from :: "bool \<Rightarrow> string \<Rightarrow> string list" where
  "split_sentences_from b [] = [[]]"
| "split_sentences_from b (c # cs) =
     (if b \<and> isspace c then [] # split_sentences_from False (dropWhile isspace cs)
      else push_char c (split_sentences_from (sentence_end c) cs))"
  by pat_completeness auto
termination
  by (relation "measure (\<lambda>(b, s). length s)")
     (auto simp: less_Suc_eq_le length_dropWhile_le)

definition split_sentences :: "string \<Rightarrow> string list" where
  "split_sentences text = split_sentences_from False text"

text \<open>\<open>sep.join(xs)\<close>.\<close>

fun join :: "string \<Rightarrow> string list \<Rightarrow> string" where
  "join sep [] = []"
| "join sep [x] = x"
| "join sep (x # y # ys) = x @ sep @ join sep (y # ys)"

subsection \<open>Size-based chunking\<close>

text \<open>
  \<^verbatim>\<open>def chunk_by_size(self, text, min_chars=300, max_chars=2000):
      sentences = re.split(r'(?<=[.!?])\s+', text)
      chunks = []; current_chunk = []; current_length = 0
      for sentence in sentences:
          sentence_length = len(sentence)
          if current_length + sentence_length > max_chars and current_length >= min_chars:
              chunks.append(' '.join(current_chunk))
              current_chunk = [sentence]
              current_length = sentence_length
          else:
              current_chunk.append(sentence)
              current_length += sentence_length + 1
      if current_chunk and current_length >= min_chars:
          chunks.append(' '.join(current_chunk))
      elif current_chunk and chunks:
          chunks[-1] += ' ' + ' '.join(current_chunk)
      return chunks if chunks else [text]\<close>
  The loop state is \<open>(chunks, current_chunk, current_length)\<close>.
\<close>

type_synonym chunk_state = "string list \<times> string list \<times> int"

definition chunk_step :: "int \<Rightarrow> int \<Rightarrow> chunk_state \<Rightarrow> string \<Rightarrow> chunk_state" where
  "chunk_step min_chars max_chars st sentence =
     (case st of (chunks, current_chunk, current_length) \<Rightarrow>
        let sentence_length = int (length sentence)
        in if current_length + sentence_length > max_chars \<and> current_length \<ge> min_chars
           then (chunks @ [join '' '' current_chunk], [sentence], sentence_length)
           else (chunks, current_chunk @ [sentence], current_length + sentence_length + 1))"

definition chunk_finish :: "int \<Rightarrow> chunk_state \<Rightarrow> string list" where
  "chunk_finish min_chars st =
     (case st of (chunks, current_chunk, current_length) \<Rightarrow>
        if current_chunk \<noteq> [] \<and> current_length \<ge> min_chars
        then chunks @ [join '' '' current_chunk]
        else if current_chunk \<noteq> [] \<and> chunks \<noteq> []
        then butlast chunks @ [last chunks @ '' '' @ join '' '' current_chunk]
        else chunks)"

definition chunk_by_size :: "string \<Rightarrow> int \<Rightarrow> int \<Rightarrow> string list" where
  "chunk_by_size text min_chars max_chars =
     (let sentences = split_sentences text;
          chunks = chunk_finish min_chars
                     (foldl (chunk_step min_chars max_chars) ([], [], 0) sentences)
      in if chunks \<noteq> [] then chunks else [text])"

subsection \<open>The cascade\<close>

text \<open>
  \<^verbatim>\<open>for pattern in patterns:
      potential_sections = re.split(pattern, text)
      if len(potential_sections) > 5:
          sections = [s.strip() for s in potential_sections if s.strip()]
          break\<close>
  With no pattern accepted, \<open>sections\<close> keeps its initial value \<open>[]\<close>.
\<close>

definition trimmed_nonempty :: "string list \<Rightarrow> string list" where
  "trimmed_nonempty ps = map strip (filter (\<lambda>s. strip s \<noteq> []) ps)"

fun try_patterns :: "(string \<Rightarrow> bool) list \<Rightarrow> string \<Rightarrow> string list" where
  "try_patterns [] text = []"
| "try_patterns (pattern # rest) text =
     (let potential_sections = re_split pattern text
      in if length potential_sections > 5 then trimmed_nonempty potential_sections
         else try_patterns rest text)"

text \<open>
  \<^verbatim>\<open>if len(sections) < 5:
      sections = [s.strip() for s in text.split('\n\n') if s.strip() and len(s.strip()) > 100]
  if len(sections) < 5:
      sections = [s.strip() for s in text.split('\n') if len(s.strip()) > 200]
  if len(sections) < 5:
      sections = self.chunk_by_size(text, min_chars=300, max_chars=2000)
  return sections\<close>
\<close>

definition paragraph_sections :: "string \<Rightarrow> string list" where
  "paragraph_sections text =
     map strip (filter (\<lambda>s. strip s \<noteq> [] \<and> length (strip s) > 100) (split_paragraphs text))"

definition line_sections :: "string \<Rightarrow> string list" where
  "line_sections text = map strip (filter (\<lambda>s. length (strip s) > 200) (split_lines text))"

definition split_into_sections :: "string \<Rightarrow> string list" where
  "split_into_sections text =
     (let sections = try_patterns patterns text;
          sections = (if length sections < 5 then paragraph_sections text else sections);
          sections = (if length sections < 5 then line_sections text else sections);
          sections = (if length sections < 5 then chunk_by_size text 300 2000 else sections)
      in sections)"

section \<open>Review ledger\<close>

text \<open>
  \<open>self.reviewed_sections\<close> is a dictionary from fingerprint to
  \<open>{'status': ..., 'preview': ...}\<close>. A Python dictionary keeps its keys in insertion order,
  which is the order \<open>json.dump\<close> writes them in: the model is an association list with
  distinct keys.
\<close>

record review =
  status :: string
  preview :: string

type_synonym ledger = "(string \<times> review) list"

text \<open>\<open>d[k] = v\<close>: the value is replaced in place for a key present, appended otherwise.\<close>

fun dict_set :: "'k \<Rightarrow> 'v \<Rightarrow> ('k \<times> 'v) list \<Rightarrow> ('k \<times> 'v) list" where
  "dict_set k v [] = [(k, v)]"
| "dict_set k v (p # ps) = (if fst p = k then (k, v) # ps else p # dict_set k v ps)"

subsection \<open>Writing: \<open>json.dump(self.reviewed_sections, f, indent=2, ensure_ascii=False)\<close>\<close>

text \<open>
  A string is written between double quotes with \<open>"\<close>, \<open>\\<close> and the control characters
  below 0x20 escaped (\<open>\b\<close>, \<open>\t\<close>, \<open>\n\<close>, \<open>\f\<close>, \<open>\r\<close>, otherwise \<open>\u00XX\<close>); every other
  character is written as it is.
\<close>

definition hex4 :: "nat \<Rightarrow> string" where
  "hex4 n = map (\<lambda>i. hex_digit (n div 16 ^ i)) [3, 2, 1, 0]"

definition escape_char :: "char \<Rightarrow> string" where
  "escape_char c =
     (if c = CHR 0x22 then [CHR 0x5C, CHR 0x22]
      else if c = CHR 0x5C then [CHR 0x5C, CHR 0x5C]
      else if c = CHR 0x0A then [CHR 0x5C, CHR ''n'']
      else if c = CHR 0x0D then [CHR 0x5C, CHR ''r'']
      else if c = CHR 0x09 then [CHR 0x5C, CHR ''t'']
      else if c = CHR 0x08 then [CHR 0x5C, CHR ''b'']
      else if c = CHR 0x0C then [CHR 0x5C, CHR ''f'']
      else if (of_char c :: nat) < 32 then [CHR 0x5C, CHR ''u''] @ hex4 (of_char c)
      else [c])"

definition encode_string :: "string \<Rightarrow> string" where
  "encode_string s = [CHR 0x22] @ concat (map escape_char s) @ [CHR 0x22]"

text \<open>
  A non-empty dictionary at nesting level \<open>n\<close> is \<open>{\<close>, a newline and \<open>2 * (n + 1)\<close> spaces,
  the items separated by a comma, a newline and the same spaces, a newline and \<open>2 * n\<close>
  spaces, \<open>}\<close>; an item is the key, \<open>: \<close> and the value. The empty dictionary is \<open>{}\<close>.
\<close>

definition newline_indent :: "nat \<Rightarrow> string" where
  "newline_indent n = CHR 0x0A # replicate (2 * n) CHR '' ''"

definition encode_dict :: "nat \<Rightarrow> (string \<times> string) list \<Rightarrow> string" where
  "encode_dict level items =
     (if items = [] then ''{}''
      else ''{'' @ newline_indent (level + 1)
             @ join ('','' @ newline_indent (level + 1))
                 (map (\<lambda>(k, v). encode_string k @ '': '' @ v) items)
             @ newline_indent level @ ''}'')"

definition encode_review :: "review \<Rightarrow> string" where
  "encode_review r =
     encode_dict 1 [(''status'', encode_string (status r)), (''preview'', encode_string (preview r))]"

definition json_dump :: "ledger \<Rightarrow> string" where
  "json_dump d = encode_dict 0 (map (\<lambda>(k, r). (k, encode_review r)) d)"

subsection \<open>Reading: \<open>json.load(f)\<close>\<close>

text \<open>
  The reader covers the JSON documents of the ledger's shape: an object whose values are
  objects whose values are strings. Tokens are separated by any run of the JSON
  whitespace characters. In a string, a raw control character below 0x20 is refused, and
  the escapes are \<open>\"\<close>, \<open>\\\<close>, \<open>\/\<close>, \<open>\b\<close>, \<open>\f\<close>, \<open>\n\<close>, \<open>\r\<close>, \<open>\t\<close> and \<open>\uXXXX\<close>.
  The result \<open>None\<close> stands for every other text: one that is not JSON (Python raises
  \<open>JSONDecodeError\<close>), and a JSON document of another shape or with a code point above
  255, which are outside the model.
\<close>

datatype token = LBrace | RBrace | Colon | Comma | Str string

definition json_ws :: "char \<Rightarrow> bool" where
  "json_ws c = (c = CHR '' '' \<or> c = CHR 0x09 \<or> c = CHR 0x0A \<or> c = CHR 0x0D)"

definition hex_value :: "char \<Rightarrow> nat option" where
  "hex_value c =
     (let n = (of_char c :: nat)
      in if 48 \<le> n \<and> n \<le> 57 then Some (n - 48)
         else if 97 \<le> n \<and> n \<le> 102 then Some (n - 87)
         else if 65 \<le> n \<and> n \<le> 70 then Some (n - 55)
         else None)"

definition unescape :: "char \<Rightarrow> char option" where
  "unescape e =
     (if e = CHR 0x22 then Some (CHR 0x22)
      else if e = CHR 0x5C then Some (CHR 0x5C)
      else if e = CHR ''/'' then Some (CHR ''/'')
      else if e = CHR ''b'' then Some (CHR 0x08)
      else if e = CHR ''f'' then Some (CHR 0x0C)
      else if e = CHR ''n'' then Some (CHR 0x0A)
      else if e = CHR ''r'' then Some (CHR 0x0D)
      else if e = CHR ''t'' then Some (CHR 0x09)
      else None)"

definition decode_u4 :: "char \<Rightarrow> char \<Rightarrow> char \<Rightarrow> char \<Rightarrow> char option" where
  "decode_u4 a b c d =
     (case (hex_value a, hex_value b, hex_value c, hex_value d) of
        (Some x, Some y, Some z, Some w) \<Rightarrow>
          (if x = 0 \<and> y = 0 then Some (char_of (16 * z + w)) else None)
      | _ \<Rightarrow> None)"

text \<open>The text of a string and the rest of the input, from just after the opening quote.\<close>

definition cons_result :: "char \<Rightarrow> (string \<times> string) option \<Rightarrow> (string \<times> string) option" where
  "cons_result ch r = (case r of None \<Rightarrow> None | Some (s, rest) \<Rightarrow> Some (ch # s, rest))"

fun scan_string :: "string \<Rightarrow> (string \<times> string) option" where
  "scan_string [] = None"
| "scan_string (c # cs) =
     (if c = CHR 0x22 then Some ([], cs)
      else if c = CHR 0x5C then
        (case cs of
           [] \<Rightarrow> None
         | e # r \<Rightarrow>
             if e = CHR ''u'' then
               (case r of
                  h1 # h2 # h3 # h4 # r' \<Rightarrow>
                    (case decode_u4 h1 h2 h3 h4 of
                       None \<Rightarrow> None
                     | Some ch \<Rightarrow> cons_result ch (scan_string r'))
                | _ \<Rightarrow> None)
             else
               (case unescape e of
                  None \<Rightarrow> None
                | Some ch \<Rightarrow> cons_result ch (scan_string r)))
      else if (of_char c :: nat) < 32 then None
      else cons_result c (scan_string cs))"

lemma scan_string_shorter: "scan_string s = Some (t, r) \<Longrightarrow> length r < length s"
proof (induction s arbitrary: t r rule: scan_string.induct)
  case 1
  then show ?case by simp
next
  case (2 c cs)
  then show ?case
    by (fastforce simp: cons_result_def less_Suc_eq
          split: if_splits list.splits option.splits prod.splits)
qed

function tokens :: "string \<Rightarrow> token list option" where
  "tokens [] = Some []"
| "tokens (c # cs) =
     (if json_ws c then tokens cs
      else if c = CHR ''{'' then map_option ((#) LBrace) (tokens cs)
      else if c = CHR ''}'' then map_option ((#) RBrace) (tokens cs)
      else if c = CHR '':'' then map_option ((#) Colon) (tokens cs)
      else if c = CHR '','' then map_option ((#) Comma) (tokens cs)
      else if c = CHR 0x22 then
        (case scan_string cs of
           None \<Rightarrow> None
         | Some (s, rest) \<Rightarrow> map_option ((#) (Str s)) (tokens rest))
      else None)"
  by pat_completeness auto
termination
  by (relation "measure length") (auto dest: scan_string_shorter)

text \<open>The members of the inner objects, from just after \<open>{\<close>.\<close>

fun parse_fields :: "token list \<Rightarrow> ((string \<times> string) list \<times> token list) option" where
  "parse_fields (Str k # Colon # Str v # RBrace # ts) = Some ([(k, v)], ts)"
| "parse_fields (Str k # Colon # Str v # Comma # ts) =
     (case parse_fields ts of
        None \<Rightarrow> None
      | Some (kvs, rest) \<Rightarrow> Some ((k, v) # kvs, rest))"
| "parse_fields _ = None"

fun parse_object :: "token list \<Rightarrow> ((string \<times> string) list \<times> token list) option" where
  "parse_object (LBrace # RBrace # ts) = Some ([], ts)"
| "parse_object (LBrace # ts) = parse_fields ts"
| "parse_object _ = None"

lemma parse_fields_shorter: "parse_fields ts = Some (kvs, r) \<Longrightarrow> length r < length ts"
  by (induction ts arbitrary: kvs r rule: parse_fields.induct)
     (auto split: option.splits prod.splits)

lemma parse_object_shorter: "parse_object ts = Some (kvs, r) \<Longrightarrow> length r < length ts"
  by (induction ts rule: parse_object.induct) (auto dest: parse_fields_shorter)

text \<open>The members of the outer object, from just after \<open>{\<close>.\<close>

function (sequential) parse_entries ::
  "token list \<Rightarrow> ((string \<times> (string \<times> string) list) list \<times> token list) option" where
  "parse_entries (Str k # Colon # ts1) =
     (case parse_object ts1 of
        Some (obj, RBrace # ts2) \<Rightarrow> Some ([(k, obj)], ts2)
      | Some (obj, Comma # ts2) \<Rightarrow>
          (case parse_entries ts2 of
             None \<Rightarrow> None
           | Some (es, rest) \<Rightarrow> Some ((k, obj) # es, rest))
      | _ \<Rightarrow> None)"
| "parse_entries _ = None"
  by pat_completeness auto
termination
  by (relation "measure length") (auto dest: parse_object_shorter)

definition parse_document :: "token list \<Rightarrow> (string \<times> (string \<times> string) list) list option" where
  "parse_document ts =
     (case ts of
        [LBrace, RBrace] \<Rightarrow> Some []
      | LBrace # ts1 \<Rightarrow>
          (case parse_entries ts1 of Some (es, []) \<Rightarrow> Some es | _ \<Rightarrow> None)
      | _ \<Rightarrow> None)"

text \<open>
  A JSON object becomes a dictionary by assigning its members in order, so a repeated key
  keeps its first position and its last value.
\<close>

definition dict_of :: "('k \<times> 'v) list \<Rightarrow> ('k \<times> 'v) list" where
  "dict_of ps = foldl (\<lambda>d (k, v). dict_set k v d) [] ps"

definition review_of :: "(string \<times> string) list \<Rightarrow> review option" where
  "review_of members =
     (case dict_of members of
        [(k1, s), (k2, p)] \<Rightarrow>
          if k1 = ''status'' \<and> k2 = ''preview'' then Some \<lparr>status = s, preview = p\<rparr> else None
      | _ \<Rightarrow> None)"

fun reviews_of :: "(string \<times> (string \<times> string) list) list \<Rightarrow> ledger option" where
  "reviews_of [] = Some []"
| "reviews_of ((k, members) # es) =
     (case (review_of members, reviews_of es) of
        (Some r, Some d) \<Rightarrow> Some ((k, r) # d)
      | _ \<Rightarrow> None)"

definition json_load :: "string \<Rightarrow> ledger option" where
  "json_load content =
     (case tokens content of
        None \<Rightarrow> None
      | Some ts \<Rightarrow>
          (case parse_document ts of
             None \<Rightarrow> None
           | Some es \<Rightarrow> (case reviews_of es of None \<Rightarrow> None | Some d \<Rightarrow> Some (dict_of d))))"

section \<open>Reviewer state and persistence\<close>

text \<open>
  The state of a \<open>TCReviewer\<close> together with the part of the outside world it touches:
  the dictionary \<open>reviewed_sections\<close>, the content of the file named \<open>db_file\<close> (\<open>None\<close> when
  the file does not exist), the lines that \<open>input()\<close> will still return, and the record of
  what the reviewer did: the sections \<open>review_section\<close> was called on, the texts written
  to the file, and the two per-section messages of \<open>process_tc_file\<close>.
\<close>

datatype exn = EOFError | LoadError

datatype event = Print_already string | Print_new | Review string | Save string

record reviewer =
  reviewed_sections :: ledger
  db_file :: "string option"
  stdin :: "string list"
  events :: "event list"

datatype 'a outcome = Returned 'a reviewer | Raised exn reviewer

fun final :: "'a outcome \<Rightarrow> reviewer" where
  "final (Returned x st) = st"
| "final (Raised e st) = st"

text \<open>
  A file opened for reading in text mode turns \<open>\r\n\<close> and a lone \<open>\r\<close> into \<open>\n\<close>.
\<close>

fun universal_newlines :: "string \<Rightarrow> string" where
  "universal_newlines (a # b # cs) =
     (if a = CHR 0x0D \<and> b = CHR 0x0A then CHR 0x0A # universal_newlines cs
      else if a = CHR 0x0D then CHR 0x0A # universal_newlines (b # cs)
      else a # universal_newlines (b # cs))"
| "universal_newlines [a] = (if a = CHR 0x0D then [CHR 0x0A] else [a])"
| "universal_newlines [] = []"

text \<open>
  \<^verbatim>\<open>def load_database(self):
      if os.path.exists(self.db_file):
          with open(self.db_file, 'r', encoding='utf-8') as f:
              return json.load(f)
      return {}\<close>
  \<open>LoadError\<close> is the result \<open>None\<close> of \<open>json_load\<close>.
\<close>

definition load_database :: "string option \<Rightarrow> exn + ledger" where
  "load_database file =
     (case file of
        None \<Rightarrow> Inr []
      | Some content \<Rightarrow>
          (case json_load (universal_newlines content) of
             None \<Rightarrow> Inl LoadError
           | Some d \<Rightarrow> Inr d))"

text \<open>\<open>TCReviewer()\<close>: the ledger is loaded once, when the reviewer is created.\<close>

definition new_reviewer :: "string option \<Rightarrow> string list \<Rightarrow> exn + reviewer" where
  "new_reviewer file lines =
     (case load_database file of
        Inl e \<Rightarrow> Inl e
      | Inr d \<Rightarrow> Inr \<lparr>reviewed_sections = d, db_file = file, stdin = lines, events = []\<rparr>)"

text \<open>
  \<^verbatim>\<open>def save_database(self):
      with open(self.db_file, 'w', encoding='utf-8') as f:
          json.dump(self.reviewed_sections, f, indent=2, ensure_ascii=False)\<close>
\<close>

definition save_database :: "reviewer \<Rightarrow> reviewer" where
  "save_database st =
     st\<lparr>db_file := Some (json_dump (reviewed_sections st)),
        events := events st @ [Save (json_dump (reviewed_sections st))]\<rparr>"

section \<open>Verdict\<close>

datatype verdict = INCOMPLETE | CONTAINS_DISAPPROVED | ALL_APPROVED | NO_SECTIONS_REVIEWED

text \<open>
  \<^verbatim>\<open>def provide_verdict(self, sections, skipped_count):
      all_sections_reviewed = True
      has_disapproved = False
      has_approved = False
      for section in sections:
          section_hash = self.hash_section(section)
          if section_hash in self.reviewed_sections:
              status = self.reviewed_sections[section_hash]['status']
              if status == 'disapproved':
                  has_disapproved = True
              elif status == 'approved':
                  has_approved = True
          else:
              all_sections_reviewed = False
      if skipped_count > 0:
          all_sections_reviewed = False
      if not all_sections_reviewed: ... INCOMPLETE REVIEW
      elif has_disapproved: ... THIS T&C CONTAINS DISAPPROVED SECTIONS
      elif has_approved and not has_disapproved: ... THIS T&C HAS ALL APPROVED SECTIONS
      else: ... NO SECTIONS REVIEWED\<close>
  The loop state is \<open>(all_sections_reviewed, has_disapproved, has_approved)\<close>; the verdict
  printed is the value returned.
\<close>

definition verdict_step :: "ledger \<Rightarrow> bool \<times> bool \<times> bool \<Rightarrow> string \<Rightarrow> bool \<times> bool \<times> bool" where
  "verdict_step d flags section =
     (case flags of (all_sections_reviewed, has_disapproved, has_approved) \<Rightarrow>
        (case map_of d (hash_section section) of
           Some r \<Rightarrow>
             if status r = ''disapproved'' then (all_sections_reviewed, True, has_approved)
             else if status r = ''approved'' then (all_sections_reviewed, has_disapproved, True)
             else (all_sections_reviewed, has_disapproved, has_approved)
         | None \<Rightarrow> (False, has_disapproved, has_approved)))"

definition provide_verdict :: "ledger \<Rightarrow> string list \<Rightarrow> int \<Rightarrow> verdict" where
  "provide_verdict d sections skipped_count =
     (case foldl (verdict_step d) (True, False, False) sections of
        (all_sections_reviewed, has_disapproved, has_approved) \<Rightarrow>
          let all_sections_reviewed = (if skipped_count > 0 then False else all_sections_reviewed)
          in if \<not> all_sections_reviewed then INCOMPLETE
             else if has_disapproved then CONTAINS_DISAPPROVED
             else if has_approved \<and> \<not> has_disapproved then ALL_APPROVED
             else NO_SECTIONS_REVIEWED)"

section \<open>Review session\<close>

text \<open>
  \<^verbatim>\<open>while True:
      choice = input("\nApprove (a), Disapprove (d), or Skip (s)? ").lower()
      if choice in ['a', 'd', 's']:
          if choice == 'a': return 'approved'
          elif choice == 'd': return 'disapproved'
          else: return 'skipped'
      print("Invalid choice. Please enter 'a', 'd', or 's'.")\<close>
  The loop over the lines of the input; \<open>None\<close> when the input ends before a valid choice,
  where \<open>input()\<close> raises \<open>EOFError\<close>.
\<close>

fun read_choice :: "string list \<Rightarrow> (string \<times> string list) option" where
  "read_choice [] = None"
| "read_choice (line # rest) =
     (let choice = lower line
      in if choice \<in> set [''a'', ''d'', ''s''] then
           Some (if choice = ''a'' then ''approved''
                 else if choice = ''d'' then ''disapproved''
                 else ''skipped'', rest)
         else read_choice rest)"

definition review_section :: "string \<Rightarrow> string \<Rightarrow> reviewer \<Rightarrow> string outcome" where
  "review_section section section_hash st =
     (let st1 = st\<lparr>events := events st @ [Review section]\<rparr>
      in case read_choice (stdin st1) of
           None \<Rightarrow> Raised EOFError (st1\<lparr>stdin := []\<rparr>)
         | Some (decision, rest) \<Rightarrow> Returned decision (st1\<lparr>stdin := rest\<rparr>))"

record counts =
  new_sections :: nat
  approved :: nat
  disapproved :: nat
  skipped :: nat
  already_reviewed :: nat

definition no_counts :: counts where
  "no_counts = \<lparr>new_sections = 0, approved = 0, disapproved = 0, skipped = 0, already_reviewed = 0\<rparr>"

definition count_decision :: "string \<Rightarrow> counts \<Rightarrow> counts" where
  "count_decision decision c =
     (if decision = ''approved'' then c\<lparr>approved := approved c + 1\<rparr>
      else if decision = ''disapproved'' then c\<lparr>disapproved := disapproved c + 1\<rparr>
      else c\<lparr>skipped := skipped c + 1\<rparr>)"

definition record_decision :: "string \<Rightarrow> string \<Rightarrow> string \<Rightarrow> reviewer \<Rightarrow> reviewer" where
  "record_decision section section_hash decision st =
     (if decision \<noteq> ''skipped'' then
        save_database
          (st\<lparr>reviewed_sections :=
                dict_set section_hash \<lparr>status = decision, preview = take 200 section\<rparr>
                  (reviewed_sections st)\<rparr>)
      else st)"

text \<open>
  The loop of \<open>process_tc_file\<close> over the sections:
  \<^verbatim>\<open>section_hash = self.hash_section(section)
  if section_hash in self.reviewed_sections:
      status = self.reviewed_sections[section_hash]['status']
      already_reviewed += 1
      print(f"\n[{i}/{len(sections)}] Already reviewed: {status}")
  else:
      new_sections += 1
      print(f"\n[{i}/{len(sections)}] NEW SECTION")
      status = self.review_section(section, section_hash)
      if status != 'skipped':
          self.reviewed_sections[section_hash] = {'status': status, 'preview': section[:200]}
          self.save_database()
      if status == 'approved': approved += 1
      elif status == 'disapproved': disapproved += 1
      else: skipped += 1\<close>
\<close>

fun review_sections :: "string list \<Rightarrow> counts \<Rightarrow> reviewer \<Rightarrow> counts outcome" where
  "review_sections [] c st = Returned c st"
| "review_sections (section # rest) c st =
     (let section_hash = hash_section section
      in case map_of (reviewed_sections st) section_hash of
           Some r \<Rightarrow>
             review_sections rest (c\<lparr>already_reviewed := already_reviewed c + 1\<rparr>)
               (st\<lparr>events := events st @ [Print_already (status r)]\<rparr>)
         | None \<Rightarrow>
             (case review_section section section_hash
                     (st\<lparr>events := events st @ [Print_new]\<rparr>) of
                Raised e st1 \<Rightarrow> Raised e st1
              | Returned decision st1 \<Rightarrow>
                  review_sections rest
                    (count_decision decision (c\<lparr>new_sections := new_sections c + 1\<rparr>))
                    (record_decision section section_hash decision st1)))"

record report =
  total :: nat
  tally :: counts
  outcome_verdict :: verdict

text \<open>
  \<open>process_tc_file\<close>, from the text that \<open>load_tc_file\<close> returned: segment, review, summarise
  and give the verdict from the ledger as it is after the loop.
\<close>

definition process_tc_file :: "string \<Rightarrow> reviewer \<Rightarrow> report outcome" where
  "process_tc_file text st =
     (let sections = split_into_sections text
      in case review_sections sections no_counts st of
           Raised e st1 \<Rightarrow> Raised e st1
         | Returned c st1 \<Rightarrow>
             Returned
               \<lparr>total = length sections, tally = c,
                outcome_verdict =
                  provide_verdict (reviewed_sections st1) sections (int (skipped c))\<rparr>
               st1)"






section \<open>Predicates of the statements\<close>



text \<open>A text has a blank line when one of its lines is empty or whitespace only.\<close>

definition has_blank_line :: "string \<Rightarrow> bool" where
  "has_blank_line doc = list_ex (\<lambda>l. strip l = []) (split_lines doc)"

text \<open>
  The cascade below the patterns: the paragraph split if it gives at least 5 sections, else
  the line split if it gives at least 5, else the chunks.
\<close>

definition fallback_sections :: "string \<Rightarrow> string list" where
  "fallback_sections doc =
     (if length (paragraph_sections doc) \<ge> 5 then paragraph_sections doc
      else if length (line_sections doc) \<ge> 5 then line_sections doc
      else chunk_by_size doc 300 2000)"

text \<open>
  The pattern step as the specification words it: a pattern is accepted when it yields
  strictly more than 5 non-empty trimmed pieces; the first accepted pattern gives the
  section list, and no fallback is applied after it.
\<close>

fun spec_try_patterns :: "(string \<Rightarrow> bool) list \<Rightarrow> string \<Rightarrow> string list option" where
  "spec_try_patterns [] doc = None"
| "spec_try_patterns (pattern # rest) doc =
     (if length (trimmed_nonempty (re_split pattern doc)) > 5
      then Some (trimmed_nonempty (re_split pattern doc))
      else spec_try_patterns rest doc)"

definition spec_segment :: "string \<Rightarrow> string list" where
  "spec_segment doc =
     (case spec_try_patterns patterns doc of
        Some sections \<Rightarrow> sections
      | None \<Rightarrow> fallback_sections doc)"




section \<open>Evaluation helpers\<close>

lemma char_of_numeral:
  "char_of (numeral k :: nat) =
     Char (odd (numeral k :: nat)) (odd (numeral k div 2 :: nat)) (odd (numeral k div 4 :: nat))
       (odd (numeral k div 8 :: nat)) (odd (numeral k div 16 :: nat)) (odd (numeral k div 32 :: nat))
       (odd (numeral k div 64 :: nat)) (odd (numeral k div 128 :: nat))"
  unfolding char_of_def bit_iff_odd by simp

lemma sections_of_empty_text: "split_into_sections [] = [[]]"
  by (simp add: split_into_sections_def patterns_def Let_def trimmed_nonempty_def
      paragraph_sections_def line_sections_def chunk_by_size_def split_sentences_def
      chunk_step_def chunk_finish_def strip_def)

section \<open>Evaluating SHA-256\<close>

lemma replicate_numeral_Cons: "replicate (numeral k) x = x # replicate (pred_numeral k) x"
  by (simp add: numeral_eq_Suc)

lemma blocks16_numeral:
  "blocks16 (numeral k) ws = take 16 ws # blocks16 (pred_numeral k) (drop 16 ws)"
  by (simp add: numeral_eq_Suc)

lemma rotr_reduced: "rotr n x = drop_bit n x OR push_bit (32 - n) (take_bit n x)"
  unfolding rotr_def by (rule bit_word_eqI) (auto simp: bit_simps)

lemma expand_numeral:
  "expand (numeral k) r =
     expand (pred_numeral k) (take_bit 32 (sigma1 (r ! 1) + r ! 6 + sigma0 (r ! 14) + r ! 15) # r)"
  by (simp add: numeral_eq_Suc take_bit_word_eq_self)

lemma sha_round_reduced:
  "sha_round [a, b, c, d, e, f, g, h] (k, w) =
     (let t1 = take_bit 32 (h + Sigma1 e + Ch e f g + k + w);
          t2 = Sigma0 a + Maj a b c
      in [take_bit 32 (t1 + t2), a, b, c, take_bit 32 (d + t1), e, f, g])"
  by (simp add: take_bit_word_eq_self)

lemma sha_empty_block:
  "be_words (sha256_pad []) =
     [0x80000000, 0x00000000, 0x00000000, 0x00000000, 0x00000000, 0x00000000, 0x00000000, 0x00000000,
      0x00000000, 0x00000000, 0x00000000, 0x00000000, 0x00000000, 0x00000000, 0x00000000, 0x00000000]"
  by (simp add: sha256_pad_def be64_def replicate_numeral_Cons)

lemma sha_empty_schedule:
  "schedule
     [0x80000000, 0x00000000, 0x00000000, 0x00000000, 0x00000000, 0x00000000, 0x00000000, 0x00000000,
      0x00000000, 0x00000000, 0x00000000, 0x00000000, 0x00000000, 0x00000000, 0x00000000, 0x00000000] =
     [0x80000000, 0x00000000, 0x00000000, 0x00000000, 0x00000000, 0x00000000, 0x00000000, 0x00000000,
      0x00000000, 0x00000000, 0x00000000, 0x00000000, 0x00000000, 0x00000000, 0x00000000, 0x00000000,
      0x80000000, 0x00000000, 0x00205000, 0x00000000, 0x22000800, 0x00000000, 0x05089542, 0x80000000,
      0x58080000, 0x0040a000, 0x00162505, 0x66001800, 0xd6222580, 0x14225508, 0xd645f95c, 0xc9282000,
      0xc3f10094, 0x284ca766, 0x06886dc6, 0xa37bf116, 0x717cbe96, 0xfec2d74a, 0xa7b67f00, 0x811596a2,
      0x98a6e768, 0x03b20c82, 0x5d1da7c9, 0xb156b935, 0xc3ddca11, 0x249c107f, 0xc48d24ef, 0x5de54c30,
      0xdefece65, 0x2ca1480d, 0x3c15332c, 0x01cec9ad, 0x160cccd0, 0x0bacda98, 0x361b8fe0, 0xd2320ba6,
      0x029b7007, 0x7546587c, 0x07f54f39, 0xf808ddc3, 0xdcca7608, 0x5e427188, 0x44bcec5d, 0x3b5ec49b]"
  by (simp add: schedule_def expand_numeral sigma0_def sigma1_def rotr_reduced)

lemma sha_empty_rounds:
  "foldl sha_round sha256_H0 (zip sha256_K
     [0x80000000, 0x00000000, 0x00000000, 0x00000000, 0x00000000, 0x00000000, 0x00000000, 0x00000000,
      0x00000000, 0x00000000, 0x00000000, 0x00000000, 0x00000000, 0x00000000, 0x00000000, 0x00000000,
      0x80000000, 0x00000000, 0x00205000, 0x00000000, 0x22000800, 0x00000000, 0x05089542, 0x80000000,
      0x58080000, 0x0040a000, 0x00162505, 0x66001800, 0xd6222580, 0x14225508, 0xd645f95c, 0xc9282000,
      0xc3f10094, 0x284ca766, 0x06886dc6, 0xa37bf116, 0x717cbe96, 0xfec2d74a, 0xa7b67f00, 0x811596a2,
      0x98a6e768, 0x03b20c82, 0x5d1da7c9, 0xb156b935, 0xc3ddca11, 0x249c107f, 0xc48d24ef, 0x5de54c30,
      0xdefece65, 0x2ca1480d, 0x3c15332c, 0x01cec9ad, 0x160cccd0, 0x0bacda98, 0x361b8fe0, 0xd2320ba6,
      0x029b7007, 0x7546587c, 0x07f54f39, 0xf808ddc3, 0xdcca7608, 0x5e427188, 0x44bcec5d, 0x3b5ec49b]) =
     [0x79a6dddb, 0xdd946d8f, 0x5e8d0156, 0xf41fc3ea, 0xd69fef65, 0xc9962ac0, 0x8511bf70, 0x1c71eb3c]"
  by (simp add: sha256_H0_def sha256_K_def sha_round_reduced Sigma0_def Sigma1_def Ch_def Maj_def
      rotr_reduced Let_def)

lemma sha_empty_digest:
  "sha256_hexdigest [] =
     ''e3b0c44298fc1c149afbf4c8996fb92427ae41e4649b934ca495991b7852b855''"
  apply (simp add: sha256_hexdigest_def sha_empty_block blocks16_numeral compress_def sha_empty_schedule
      sha_empty_rounds)
  apply (simp add: sha256_H0_def hex32_def hex_digit_def)
  done

lemma sha_foo_bar_block:
  "be_words (sha256_pad [0x66, 0x6f, 0x6f, 0x20, 0x62, 0x61, 0x72]) =
     [0x666f6f20, 0x62617280, 0x00000000, 0x00000000, 0x00000000, 0x00000000, 0x00000000, 0x00000000,
      0x00000000, 0x00000000, 0x00000000, 0x00000000, 0x00000000, 0x00000000, 0x00000000, 0x00000038]"
  by (simp add: sha256_pad_def be64_def replicate_numeral_Cons)

lemma sha_foo_bar_schedule:
  "schedule
     [0x666f6f20, 0x62617280, 0x00000000, 0x00000000, 0x00000000, 0x00000000, 0x00000000, 0x00000000,
      0x00000000, 0x00000000, 0x00000000, 0x00000000, 0x00000000, 0x00000000, 0x00000000, 0x00000038] =
     [0x666f6f20, 0x62617280, 0x00000000, 0x00000000, 0x00000000, 0x00000000, 0x00000000, 0x00000000,
      0x00000000, 0x00000000, 0x00000000, 0x00000000, 0x00000000, 0x00000000, 0x00000000, 0x00000038,
      0xb698634d, 0x627c7280, 0x3de2cb87, 0xb708a26d, 0x3cbc01ff, 0x4556af4d, 0x80cf5701, 0x38f6c2f7,
      0xa3bd362b, 0xf70e125c, 0xf500ed51, 0x081428e1, 0xb0963368, 0x123df703, 0x88fa2ed3, 0x7e8feb90,
      0x10636fbc, 0x1b4946dc, 0x0538f019, 0xece36984, 0xeefc0eeb, 0x6ef2c5d4, 0xdfc57419, 0x925f6d0f,
      0xf75785fa, 0xdd681064, 0xdd8f36bd, 0x4cc3ad17, 0x16ea3178, 0xd2f83de7, 0x4fb94c0c, 0x3126cde6,
      0x68487d1c, 0xc6c7434a, 0x5158d93d, 0x1783a7e6, 0x4e184810, 0xdaf78f52, 0x1432a2c8, 0x3b985852,
      0x9965b2f1, 0x03943623, 0x3057a75d, 0xb75f91d3, 0xf3adf00b, 0x6494a446, 0x4ac929ab, 0xbbdde213]"
  by (simp add: schedule_def expand_numeral sigma0_def sigma1_def rotr_reduced)

lemma sha_foo_bar_rounds:
  "foldl sha_round sha256_H0 (zip sha256_K
     [0x666f6f20, 0x62617280, 0x00000000, 0x00000000, 0x00000000, 0x00000000, 0x00000000, 0x00000000,
      0x00000000, 0x00000000, 0x00000000, 0x00000000, 0x00000000, 0x00000000, 0x00000000, 0x00000038,
      0xb698634d, 0x627c7280, 0x3de2cb87, 0xb708a26d, 0x3cbc01ff, 0x4556af4d, 0x80cf5701, 0x38f6c2f7,
      0xa3bd362b, 0xf70e125c, 0xf500ed51, 0x081428e1, 0xb0963368, 0x123df703, 0x88fa2ed3, 0x7e8feb90,
      0x10636fbc, 0x1b4946dc, 0x0538f019, 0xece36984, 0xeefc0eeb, 0x6ef2c5d4, 0xdfc57419, 0x925f6d0f,
      0xf75785fa, 0xdd681064, 0xdd8f36bd, 0x4cc3ad17, 0x16ea3178, 0xd2f83de7, 0x4fb94c0c, 0x3126cde6,
      0x68487d1c, 0xc6c7434a, 0x5158d93d, 0x1783a7e6, 0x4e184810, 0xdaf78f52, 0x1432a2c8, 0x3b985852,
      0x9965b2f1, 0x03943623, 0x3057a75d, 0xb75f91d3, 0xf3adf00b, 0x6494a446, 0x4ac929ab, 0xbbdde213]) =
     [0x91b7c391, 0x9d82ef92, 0x3ca7a2d9, 0x333c47fd, 0x680bcc05, 0xa621fd56, 0x79cc9dd4, 0xca7b7e5c]"
  by (simp add: sha256_H0_def sha256_K_def sha_round_reduced Sigma0_def Sigma1_def Ch_def Maj_def
      rotr_reduced Let_def)

lemma sha_foo_bar_digest:
  "sha256_hexdigest [0x66, 0x6f, 0x6f, 0x20, 0x62, 0x61, 0x72] =
     ''fbc1a9f858ea9e177916964bd88c3d37b91a1e84412765e29950777f265c4b75''"
  apply (simp add: sha256_hexdigest_def sha_foo_bar_block blocks16_numeral compress_def sha_foo_bar_schedule
      sha_foo_bar_rounds)
  apply (simp add: sha256_H0_def hex32_def hex_digit_def)
  done

lemma sha_foo_nl_bar_block:
  "be_words (sha256_pad [0x66, 0x6f, 0x6f, 0x0a, 0x62, 0x61, 0x72]) =
     [0x666f6f0a, 0x62617280, 0x00000000, 0x00000000, 0x00000000, 0x00000000, 0x00000000, 0x00000000,
      0x00000000, 0x00000000, 0x00000000, 0x00000000, 0x00000000, 0x00000000, 0x00000000, 0x00000038]"
  by (simp add: sha256_pad_def be64_def replicate_numeral_Cons)

lemma sha_foo_nl_bar_schedule:
  "schedule
     [0x666f6f0a, 0x62617280, 0x00000000, 0x00000000, 0x00000000, 0x00000000, 0x00000000, 0x00000000,
      0x00000000, 0x00000000, 0x00000000, 0x00000000, 0x00000000, 0x00000000, 0x00000000, 0x00000038] =
     [0x666f6f0a, 0x62617280, 0x00000000, 0x00000000, 0x00000000, 0x00000000, 0x00000000, 0x00000000,
      0x00000000, 0x00000000, 0x00000000, 0x00000000, 0x00000000, 0x00000000, 0x00000000, 0x00000038,
      0xb6986337, 0x627c7280, 0x3dd08b87, 0xb708a26d, 0x54bc0d70, 0x4556af4d, 0x87031002, 0x38f6c2e1,
      0x4c9d4625, 0xf6f3125c, 0xc2cdcaf9, 0x401466d3, 0xa16a199a, 0x46a6dd13, 0xf8db2106, 0x634b7993,
      0xb254797b, 0x244dcb9e, 0x16b795a3, 0x9e8b6e7f, 0x0db658cd, 0xeaf83482, 0x47a25074, 0x1aba93f9,
      0x36b50f47, 0xc291fb26, 0x3ed67e59, 0xb79b1c5e, 0x1667a2fb, 0x567e05d4, 0x2d884629, 0x5bb69293,
      0xeae7f1fc, 0x9fc4cd32, 0x0cc1a085, 0xc1aae368, 0x5e2fc278, 0xbacfac49, 0x1259f41f, 0xf48fe625,
      0xc62185c9, 0x09702f5c, 0x5f79adcb, 0x4471b6f6, 0xd79892aa, 0x9ced43f9, 0x06b36d03, 0x4472ea7c]"
  by (simp add: schedule_def expand_numeral sigma0_def sigma1_def rotr_reduced)

lemma sha_foo_nl_bar_rounds:
  "foldl sha_round sha256_H0 (zip sha256_K
     [0x666f6f0a, 0x62617280, 0x00000000, 0x00000000, 0x00000000, 0x00000000, 0x00000000, 0x00000000,
      0x00000000, 0x00000000, 0x00000000, 0x00000000, 0x00000000, 0x00000000, 0x00000000, 0x00000038,
      0xb6986337, 0x627c7280, 0x3dd08b87, 0xb708a26d, 0x54bc0d70, 0x4556af4d, 0x87031002, 0x38f6c2e1,
      0x4c9d4625, 0xf6f3125c, 0xc2cdcaf9, 0x401466d3, 0xa16a199a, 0x46a6dd13, 0xf8db2106, 0x634b7993,
      0xb254797b, 0x244dcb9e, 0x16b795a3, 0x9e8b6e7f, 0x0db658cd, 0xeaf83482, 0x47a25074, 0x1aba93f9,
      0x36b50f47, 0xc291fb26, 0x3ed67e59, 0xb79b1c5e, 0x1667a2fb, 0x567e05d4, 0x2d884629, 0x5bb69293,
      0xeae7f1fc, 0x9fc4cd32, 0x0cc1a085, 0xc1aae368, 0x5e2fc278, 0xbacfac49, 0x1259f41f, 0xf48fe625,
      0xc62185c9, 0x09702f5c, 0x5f79adcb, 0x4471b6f6, 0xd79892aa, 0x9ced43f9, 0x06b36d03, 0x4472ea7c]) =
     [0x167518fb, 0xac8c4aa1, 0x65ae2fdd, 0xd5bd032d, 0x5760f561, 0xdf4dc689, 0xc9486042, 0xb52bda5d]"
  by (simp add: sha256_H0_def sha256_K_def sha_round_reduced Sigma0_def Sigma1_def Ch_def Maj_def
      rotr_reduced Let_def)

lemma sha_foo_nl_bar_digest:
  "sha256_hexdigest [0x66, 0x6f, 0x6f, 0x0a, 0x62, 0x61, 0x72] =
     ''807eff6267f3f926a21d234f7b0cf867a86f47e07a532f15e8cc39ed110ca776''"
  apply (simp add: sha256_hexdigest_def sha_foo_nl_bar_block blocks16_numeral compress_def sha_foo_nl_bar_schedule
      sha_foo_nl_bar_rounds)
  apply (simp add: sha256_H0_def hex32_def hex_digit_def)
  done

lemma hash_empty:
  "hash_section [] = ''e3b0c44298fc1c149afbf4c8996fb92427ae41e4649b934ca495991b7852b855''"
  by (simp add: hash_section_def normalized_def strip_def lower_def encode_utf8_def sha_empty_digest)

lemma hash_foo_bar:
  "hash_section ''foo bar'' = ''fbc1a9f858ea9e177916964bd88c3d37b91a1e84412765e29950777f265c4b75''"
  by (simp add: hash_section_def normalized_def strip_def lower_def lower_char_def isspace_def
      encode_utf8_def encode_char_def sha_foo_bar_digest)

lemma hash_foo_nl_bar:
  "hash_section [CHR ''F'', CHR ''o'', CHR ''o'', CHR 0x0A, CHR ''B'', CHR ''a'', CHR ''r''] =
     ''807eff6267f3f926a21d234f7b0cf867a86f47e07a532f15e8cc39ed110ca776''"
  by (simp add: hash_section_def normalized_def strip_def lower_def lower_char_def isspace_def
      encode_utf8_def encode_char_def sha_foo_nl_bar_digest)

section \<open>Verdict precedence\<close>

lemma verdict_step_flags:
  "verdict_step d (a, b, c) s =
     (a \<and> map_of d (hash_section s) \<noteq> None,
      b \<or> (\<exists>r. map_of d (hash_section s) = Some r \<and> status r = ''disapproved''),
      c \<or> (\<exists>r. map_of d (hash_section s) = Some r \<and> status r = ''approved''
               \<and> status r \<noteq> ''disapproved''))"
  by (simp add: verdict_step_def split: option.split)

lemma verdict_flags:
  "foldl (verdict_step d) (a, b, c) sections =
     (a \<and> (\<forall>s \<in> set sections. map_of d (hash_section s) \<noteq> None),
      b \<or> (\<exists>s \<in> set sections. \<exists>r. map_of d (hash_section s) = Some r
               \<and> status r = ''disapproved''),
      c \<or> (\<exists>s \<in> set sections. \<exists>r. map_of d (hash_section s) = Some r
               \<and> status r = ''approved'' \<and> status r \<noteq> ''disapproved''))"
proof (induction sections arbitrary: a b c)
  case Nil
  then show ?case by simp
next
  case (Cons s sections)
  show ?case
    unfolding foldl_Cons verdict_step_flags Cons.IH
    by auto
qed

text \<open>
  Claim C2. The verdict over the sections, the ledger and the skipped count of the run is
  INCOMPLETE when some section's fingerprint is absent from the ledger or the skipped
  count is positive; otherwise CONTAINS_DISAPPROVED when some section's ledger status is
  disapproved; otherwise ALL_APPROVED when some section's status is approved; otherwise
  NO_SECTIONS_REVIEWED.
\<close>

theorem provide_verdict_precedence:
  "provide_verdict d sections skipped_count =
     (if (\<exists>s \<in> set sections. map_of d (hash_section s) = None) \<or> skipped_count > 0
      then INCOMPLETE
      else if (\<exists>s \<in> set sections. \<exists>r. map_of d (hash_section s) = Some r
                  \<and> status r = ''disapproved'')
      then CONTAINS_DISAPPROVED
      else if (\<exists>s \<in> set sections. \<exists>r. map_of d (hash_section s) = Some r
                  \<and> status r = ''approved'')
      then ALL_APPROVED
      else NO_SECTIONS_REVIEWED)"
  unfolding provide_verdict_def verdict_flags
  by (auto simp: Let_def)


text \<open>
  The theorem at the ledgers of the specification's examples: sections \<open>{approved,
  disapproved}\<close>, \<open>{approved, approved}\<close>, \<open>{approved, missing}\<close>, one skip with all sections
  approved, and the empty document.
\<close>
theorem provide_verdict_precedence_witness:
  "provide_verdict
     [(hash_section ''foo bar'', \<lparr>status = ''approved'', preview = ''foo bar''\<rparr>),
      (hash_section [], \<lparr>status = ''disapproved'', preview = []\<rparr>)]
     [''foo bar'', []] 0 = CONTAINS_DISAPPROVED
   \<and> provide_verdict
     [(hash_section ''foo bar'', \<lparr>status = ''approved'', preview = ''foo bar''\<rparr>),
      (hash_section [], \<lparr>status = ''approved'', preview = []\<rparr>)]
     [''foo bar'', []] 0 = ALL_APPROVED
   \<and> provide_verdict
     [(hash_section ''foo bar'', \<lparr>status = ''approved'', preview = ''foo bar''\<rparr>)]
     [''foo bar'', []] 0 = INCOMPLETE
   \<and> provide_verdict
     [(hash_section ''foo bar'', \<lparr>status = ''approved'', preview = ''foo bar''\<rparr>),
      (hash_section [], \<lparr>status = ''approved'', preview = []\<rparr>)]
     [''foo bar'', []] 1 = INCOMPLETE
   \<and> provide_verdict [] [] 0 = NO_SECTIONS_REVIEWED"
  by (simp add: provide_verdict_precedence hash_empty hash_foo_bar)

section \<open>Fingerprints\<close>

lemma lower_char_idem: "lower_char (lower_char c) = lower_char c"
  by (auto simp: lower_char_def Let_def)

lemma isspace_code:
  "isspace c = ((of_char c :: nat) \<in> {9, 10, 11, 12, 13, 28, 29, 30, 31, 32, 133, 160})"
proof -
  have eq: "(c = d) = ((of_char c :: nat) = of_char d)" for d
    by simp
  show ?thesis
    unfolding isspace_def by (simp add: eq)
qed

lemma isspace_lower_char: "isspace (lower_char c) = isspace c"
  by (auto simp: isspace_code lower_char_def Let_def)

lemma last_dropWhile: "dropWhile P xs \<noteq> [] \<Longrightarrow> last (dropWhile P xs) = last xs"
  by (induction xs) (auto split: if_splits)

lemma strip_ends:
  "strip s = [] \<or> (\<not> isspace (hd (strip s)) \<and> \<not> isspace (last (strip s)))"
proof (cases "strip s = []")
  case True
  then show ?thesis by simp
next
  case False
  let ?u = "dropWhile isspace s"
  let ?w = "dropWhile isspace (rev ?u)"
  have w: "?w \<noteq> []" using False by (simp add: strip_def)
  have u: "?u \<noteq> []"
  proof
    assume a: "?u = []"
    have "?w = dropWhile isspace (rev [])" by (simp only: a)
    with w show False by simp
  qed
  have "\<not> isspace (hd ?w)" using w by (rule hd_dropWhile)
  then have l: "\<not> isspace (last (strip s))"
    using w by (simp add: strip_def last_rev)
  have "last ?w = last (rev ?u)" using w by (rule last_dropWhile)
  then have "hd (strip s) = hd ?u"
    using w u by (simp add: strip_def hd_rev last_rev)
  moreover have "\<not> isspace (hd ?u)" using u by (rule hd_dropWhile)
  ultimately show ?thesis using l by simp
qed

lemma strip_fixed:
  "s = [] \<or> (\<not> isspace (hd s) \<and> \<not> isspace (last s)) \<Longrightarrow> strip s = s"
proof (cases s)
  case Nil
  then show ?thesis by (simp add: strip_def)
next
  case (Cons a list)
  assume "s = [] \<or> (\<not> isspace (hd s) \<and> \<not> isspace (last s))"
  with Cons have h: "\<not> isspace (hd s)" and l: "\<not> isspace (last s)" by auto
  have ne: "s \<noteq> []" using Cons by simp
  have "dropWhile isspace s = s" using h by (simp add: dropWhile_eq_self_iff)
  moreover have "dropWhile isspace (rev s) = rev s"
    using l ne by (simp add: dropWhile_eq_self_iff hd_rev)
  ultimately show ?thesis by (simp add: strip_def)
qed

lemma strip_idem: "strip (strip s) = strip s"
  by (rule strip_fixed) (rule strip_ends)

lemma strip_lower: "strip (lower s) = lower (strip s)"
proof -
  have dm: "dropWhile isspace (map lower_char xs) = map lower_char (dropWhile isspace xs)" for xs
    by (induction xs) (auto simp: isspace_lower_char)
  show ?thesis
    by (simp add: strip_def lower_def dm rev_map)
qed

lemma lower_idem: "lower (lower s) = lower s"
  by (simp add: lower_def lower_char_idem)

lemma normalized_idem: "normalized (normalized s) = normalized s"
  by (simp add: normalized_def strip_lower strip_idem lower_idem)

text \<open>
  Claim C5. The fingerprint of a text is the fingerprint of its stripped, lower-cased
  form; \<open> Foo \<close> and \<open>foo\<close> have the same fingerprint; \<open>Foo\nBar\<close> and \<open>foo bar\<close>, which
  differ in their inner whitespace, have different ones.
\<close>

theorem fingerprint_normalizes:
  "hash_section s = hash_section (lower (strip s))
   \<and> hash_section '' Foo '' = hash_section ''foo''
   \<and> hash_section (''Foo'' @ [CHR 0x0A] @ ''Bar'') \<noteq> hash_section ''foo bar''"
proof -
  have "normalized s = normalized (lower (strip s))"
    using normalized_idem[of s] by (simp add: normalized_def)
  then have "hash_section s = hash_section (lower (strip s))"
    by (simp add: hash_section_def)
  moreover have "normalized '' Foo '' = normalized ''foo''"
    by (simp add: normalized_def strip_def lower_def lower_char_def isspace_def char_of_numeral)
  then have "hash_section '' Foo '' = hash_section ''foo''"
    by (simp add: hash_section_def)
  moreover have "hash_section (''Foo'' @ [CHR 0x0A] @ ''Bar'') \<noteq> hash_section ''foo bar''"
    by (simp add: hash_foo_nl_bar hash_foo_bar)
  ultimately show ?thesis by blast
qed

section \<open>The empty document\<close>

text \<open>
  Claim C9. The empty text is segmented into exactly one section, the empty text itself,
  and the fingerprint of that section is a value: the SHA-256 digest of no bytes.
\<close>

theorem empty_document:
  "split_into_sections [] = [[]]
   \<and> hash_section [] = ''e3b0c44298fc1c149afbf4c8996fb92427ae41e4649b934ca495991b7852b855''"
  by (simp add: sections_of_empty_text hash_empty)

section \<open>Session: what a run changes\<close>

lemma map_of_dict_set: "map_of (dict_set k v d) = (map_of d)(k \<mapsto> v)"
  by (induction d) (auto simp: fun_eq_iff)


lemma review_section_Returned:
  "review_section s h st = Returned decision st1 \<Longrightarrow>
     (\<exists>rest. read_choice (stdin st) = Some (decision, rest)
        \<and> st1 = st\<lparr>events := events st @ [Review s], stdin := rest\<rparr>)"
  by (auto simp: review_section_def Let_def split: option.splits)

lemma review_section_Raised:
  "review_section s h st = Raised e st1 \<Longrightarrow>
     e = EOFError \<and> read_choice (stdin st) = None
       \<and> st1 = st\<lparr>events := events st @ [Review s], stdin := []\<rparr>"
  by (auto simp: review_section_def Let_def split: option.splits)

lemma review_sections_append:
  "review_sections (xs @ ys) c st =
     (case review_sections xs c st of
        Raised e st1 \<Rightarrow> Raised e st1
      | Returned c1 st1 \<Rightarrow> review_sections ys c1 st1)"
  by (induction xs arbitrary: c st) (auto simp: Let_def split: option.splits outcome.splits)

text \<open>A record, once in the ledger, stays as it is for the rest of the loop.\<close>

lemma record_decision_keeps:
  "map_of (reviewed_sections st) h = None \<Longrightarrow> map_of (reviewed_sections st) k = Some r \<Longrightarrow>
     map_of (reviewed_sections (record_decision s h decision st)) k = Some r"
  by (auto simp: record_decision_def save_database_def map_of_dict_set)

lemma review_sections_keeps:
  "map_of (reviewed_sections st) k = Some r \<Longrightarrow>
     map_of (reviewed_sections (final (review_sections ss c st))) k = Some r"
proof (induction ss arbitrary: c st)
  case Nil
  then show ?case by simp
next
  case (Cons s ss)
  show ?case
  proof (cases "map_of (reviewed_sections st) (hash_section s)")
    case (Some r')
    then show ?thesis using Cons by (simp add: Let_def)
  next
    case None
    show ?thesis
    proof (cases "review_section s (hash_section s) (st\<lparr>events := events st @ [Print_new]\<rparr>)")
      case (Raised e st1)
      then show ?thesis
        using None Cons.prems by (auto simp: Let_def dest!: review_section_Raised)
    next
      case (Returned decision st1)
      from review_section_Returned[OF this]
      have led: "reviewed_sections st1 = reviewed_sections st" by auto
      have "map_of (reviewed_sections (record_decision s (hash_section s) decision st1)) k = Some r"
        by (rule record_decision_keeps) (simp_all add: led None Cons.prems)
      from Cons.IH[OF this] show ?thesis
        using None Returned by (simp add: Let_def)
    qed
  qed
qed

text \<open>The loop adds records only under fingerprints of the sections it is given.\<close>

lemma record_decision_new_key:
  "map_of (reviewed_sections (record_decision s h decision st)) k \<noteq> None \<Longrightarrow>
     map_of (reviewed_sections st) k \<noteq> None \<or> k = h"
  by (auto simp: record_decision_def save_database_def map_of_dict_set split: if_splits)

lemma review_sections_new_keys:
  "map_of (reviewed_sections (final (review_sections ss c st))) k \<noteq> None \<Longrightarrow>
     map_of (reviewed_sections st) k \<noteq> None \<or> k \<in> hash_section ` set ss"
proof (induction ss arbitrary: c st)
  case Nil
  then show ?case by simp
next
  case (Cons s ss)
  show ?case
  proof (cases "map_of (reviewed_sections st) (hash_section s)")
    case (Some r')
    then show ?thesis using Cons.prems Cons.IH[of _ "st\<lparr>events := events st @ [Print_already (status r')]\<rparr>"]
      by (auto simp: Let_def)
  next
    case None
    show ?thesis
    proof (cases "review_section s (hash_section s) (st\<lparr>events := events st @ [Print_new]\<rparr>)")
      case (Raised e st1)
      then show ?thesis
        using None Cons.prems by (auto simp: Let_def dest!: review_section_Raised)
    next
      case (Returned decision st1)
      from review_section_Returned[OF this]
      have led: "reviewed_sections st1 = reviewed_sections st" by auto
      from Cons.prems None Returned
      have "map_of (reviewed_sections (final (review_sections ss
              (count_decision decision (c\<lparr>new_sections := new_sections c + 1\<rparr>))
              (record_decision s (hash_section s) decision st1)))) k \<noteq> None"
        by (simp add: Let_def)
      from Cons.IH[OF this] record_decision_new_key[of s "hash_section s" decision st1 k]
      show ?thesis by (auto simp: led)
    qed
  qed
qed

section \<open>Re-processing a reviewed document\<close>

lemma review_sections_all_reviewed:
  "\<forall>s \<in> set ss. map_of (reviewed_sections st) (hash_section s) \<noteq> None \<Longrightarrow>
     review_sections ss c st =
       Returned (c\<lparr>already_reviewed := already_reviewed c + length ss\<rparr>)
         (st\<lparr>events := events st @
              map (\<lambda>s. Print_already (status (the (map_of (reviewed_sections st) (hash_section s))))) ss\<rparr>)"
proof (induction ss arbitrary: c st)
  case Nil
  then show ?case by simp
next
  case (Cons s ss)
  then obtain r where r: "map_of (reviewed_sections st) (hash_section s) = Some r"
    by auto
  let ?st = "st\<lparr>events := events st @ [Print_already (status r)]\<rparr>"
  have "\<forall>s \<in> set ss. map_of (reviewed_sections ?st) (hash_section s) \<noteq> None"
    using Cons.prems by simp
  from Cons.IH[OF this] show ?case
    using r by (simp add: Let_def)
qed

text \<open>
  Claim C7. When every section of the document already has a record in the ledger,
  processing it returns with the ledger, the file and the input untouched: no text is
  saved and \<open>review_section\<close> is not called (the only new events are the
  already-reviewed messages, one per section, each with the stored status), and the
  report counts every section as already reviewed and none as new.
\<close>

theorem reprocess_reviewed_document:
  assumes "\<forall>s \<in> set (split_into_sections text). map_of (reviewed_sections st) (hash_section s) \<noteq> None"
  shows "process_tc_file text st =
     Returned
       \<lparr>total = length (split_into_sections text),
        tally = no_counts\<lparr>already_reviewed := length (split_into_sections text)\<rparr>,
        outcome_verdict = provide_verdict (reviewed_sections st) (split_into_sections text) 0\<rparr>
       (st\<lparr>events := events st @
            map (\<lambda>s. Print_already (status (the (map_of (reviewed_sections st) (hash_section s)))))
              (split_into_sections text)\<rparr>)"
  using review_sections_all_reviewed[OF assms, of no_counts]
  by (simp add: process_tc_file_def Let_def no_counts_def)

text \<open>
  The theorem at the empty document with its one section approved before. The input is
  empty, so a call of \<open>review_section\<close> would have raised \<open>EOFError\<close>.
\<close>

theorem reprocess_reviewed_document_witness:
  "process_tc_file []
     \<lparr>reviewed_sections = [(hash_section [], \<lparr>status = ''approved'', preview = []\<rparr>)],
      db_file = None, stdin = [], events = []\<rparr> =
   Returned
     \<lparr>total = 1,
      tally = \<lparr>new_sections = 0, approved = 0, disapproved = 0, skipped = 0, already_reviewed = 1\<rparr>,
      outcome_verdict = ALL_APPROVED\<rparr>
     \<lparr>reviewed_sections = [(hash_section [], \<lparr>status = ''approved'', preview = []\<rparr>)],
      db_file = None, stdin = [], events = [Print_already ''approved'']\<rparr>"
  using reprocess_reviewed_document[of "[]"
     "\<lparr>reviewed_sections = [(hash_section [], \<lparr>status = ''approved'', preview = []\<rparr>)],
      db_file = None, stdin = [], events = []\<rparr>"]
  by (simp add: sections_of_empty_text no_counts_def provide_verdict_def verdict_step_def)

section \<open>The ledger holds decisions only\<close>







lemma record_decision_skipped: "record_decision s h ''skipped'' st = st"
  by (simp add: record_decision_def)










section \<open>A fingerprint met twice in one run\<close>

lemma hash_section_normalized:
  "normalized a = normalized b \<Longrightarrow> hash_section a = hash_section b"
  by (simp add: hash_section_def)

lemma hash_upper_foo_bar: "hash_section '' FOO BAR'' = hash_section ''foo bar''"
  by (rule hash_section_normalized)
     (simp add: normalized_def strip_def lower_def lower_char_def isspace_def char_of_numeral)

lemma hash_blank: "hash_section '' '' = hash_section []"
  by (rule hash_section_normalized) (simp add: normalized_def strip_def isspace_def)

lemma run_approve_then_skip:
  "review_sections [''foo bar'', []] no_counts
     \<lparr>reviewed_sections = [], db_file = None, stdin = [''a'', ''s''], events = []\<rparr> =
   Returned
     \<lparr>new_sections = 2, approved = 1, disapproved = 0, skipped = 1, already_reviewed = 0\<rparr>
     \<lparr>reviewed_sections = [(hash_section ''foo bar'', \<lparr>status = ''approved'', preview = ''foo bar''\<rparr>)],
      db_file = Some (json_dump
        [(hash_section ''foo bar'', \<lparr>status = ''approved'', preview = ''foo bar''\<rparr>)]),
      stdin = [],
      events = [Print_new, Review ''foo bar'',
        Save (json_dump [(hash_section ''foo bar'', \<lparr>status = ''approved'', preview = ''foo bar''\<rparr>)]),
        Print_new, Review []]\<rparr>"
  by (simp add: Let_def review_section_def record_decision_def save_database_def no_counts_def
      count_decision_def lower_def lower_char_def hash_foo_bar hash_empty)

lemma run_skip:
  "review_sections [[]] no_counts
     \<lparr>reviewed_sections = [], db_file = None, stdin = [''s'', ''d''], events = []\<rparr> =
   Returned
     \<lparr>new_sections = 1, approved = 0, disapproved = 0, skipped = 1, already_reviewed = 0\<rparr>
     \<lparr>reviewed_sections = [], db_file = None, stdin = [''d''],
      events = [Print_new, Review []]\<rparr>"
  by (simp add: Let_def review_section_def record_decision_def no_counts_def
      count_decision_def lower_def lower_char_def)

text \<open>
  Claim C10. Let the first occurrence \<open>s1\<close> of a fingerprint be new when the loop reaches it,
  let \<open>decision\<close> be what the reviewer answers, and let the loop run on through \<open>mid\<close> to a
  later section \<open>s2\<close> with the same fingerprint. If the decision was not \<open>skipped\<close>, the loop
  does not call \<open>review_section\<close> for \<open>s2\<close>: it reports it as already reviewed with that
  decision and counts it so. If the decision was \<open>skipped\<close> and no section in between has
  that fingerprint, \<open>s2\<close> is treated as a new section: \<open>review_section\<close> is called for it.
\<close>

theorem repeated_fingerprint_in_run:
  assumes new: "map_of (reviewed_sections st) (hash_section s1) = None"
    and choice: "read_choice (stdin st) = Some (decision, rest_in)"
    and run: "review_sections (s1 # mid) c st = Returned c1 st1"
    and same: "hash_section s2 = hash_section s1"
  shows "(decision \<noteq> ''skipped'' \<longrightarrow>
            review_sections (s2 # rest) c1 st1 =
              review_sections rest (c1\<lparr>already_reviewed := already_reviewed c1 + 1\<rparr>)
                (st1\<lparr>events := events st1 @ [Print_already decision]\<rparr>))
       \<and> (decision = ''skipped'' \<and> hash_section s1 \<notin> hash_section ` set mid \<longrightarrow>
            review_sections (s2 # rest) c1 st1 =
              (case review_section s2 (hash_section s2)
                      (st1\<lparr>events := events st1 @ [Print_new]\<rparr>) of
                 Raised e st2 \<Rightarrow> Raised e st2
               | Returned decision2 st2 \<Rightarrow>
                   review_sections rest
                     (count_decision decision2 (c1\<lparr>new_sections := new_sections c1 + 1\<rparr>))
                     (record_decision s2 (hash_section s2) decision2 st2)))"
proof -
  let ?st0 = "st\<lparr>events := events st @ [Print_new]\<rparr>"
  let ?sta = "?st0\<lparr>events := events ?st0 @ [Review s1], stdin := rest_in\<rparr>"
  let ?stb = "record_decision s1 (hash_section s1) decision ?sta"
  let ?c = "count_decision decision (c\<lparr>new_sections := new_sections c + 1\<rparr>)"
  have first: "review_section s1 (hash_section s1) ?st0 = Returned decision ?sta"
    using choice by (simp add: review_section_def Let_def)
  have mid: "review_sections mid ?c ?stb = Returned c1 st1"
    using run new first by (simp add: Let_def)
  then have st1: "st1 = final (review_sections mid ?c ?stb)"
    by simp
  show ?thesis
  proof (intro conjI impI)
    assume d: "decision \<noteq> ''skipped''"
    have "map_of (reviewed_sections ?stb) (hash_section s1) =
            Some \<lparr>status = decision, preview = take 200 s1\<rparr>"
      using d by (simp add: record_decision_def save_database_def map_of_dict_set)
    then have "map_of (reviewed_sections st1) (hash_section s1) =
            Some \<lparr>status = decision, preview = take 200 s1\<rparr>"
      unfolding st1 by (rule review_sections_keeps)
    then show "review_sections (s2 # rest) c1 st1 =
              review_sections rest (c1\<lparr>already_reviewed := already_reviewed c1 + 1\<rparr>)
                (st1\<lparr>events := events st1 @ [Print_already decision]\<rparr>)"
      by (simp add: same Let_def)
  next
    assume "decision = ''skipped'' \<and> hash_section s1 \<notin> hash_section ` set mid"
    then have d: "decision = ''skipped''" and m: "hash_section s1 \<notin> hash_section ` set mid"
      by simp_all
    have "map_of (reviewed_sections ?stb) (hash_section s1) = None"
      using d new by (simp add: record_decision_skipped)
    with review_sections_new_keys[of mid ?c ?stb "hash_section s1"] m
    have "map_of (reviewed_sections st1) (hash_section s2) = None"
      unfolding st1 same by blast
    then show "review_sections (s2 # rest) c1 st1 =
              (case review_section s2 (hash_section s2)
                      (st1\<lparr>events := events st1 @ [Print_new]\<rparr>) of
                 Raised e st2 \<Rightarrow> Raised e st2
               | Returned decision2 st2 \<Rightarrow>
                   review_sections rest
                     (count_decision decision2 (c1\<lparr>new_sections := new_sections c1 + 1\<rparr>))
                     (record_decision s2 (hash_section s2) decision2 st2))"
      by (simp add: Let_def)
  qed
qed

text \<open>
  The theorem at two runs: \<open>foo bar\<close> approved and met again as \<open> FOO BAR\<close>, and the empty
  section skipped and met again as a blank one, which is then disapproved.
\<close>

theorem repeated_fingerprint_in_run_witness:
  "review_sections ['' FOO BAR'']
     \<lparr>new_sections = 2, approved = 1, disapproved = 0, skipped = 1, already_reviewed = 0\<rparr>
     \<lparr>reviewed_sections = [(hash_section ''foo bar'', \<lparr>status = ''approved'', preview = ''foo bar''\<rparr>)],
      db_file = Some (json_dump
        [(hash_section ''foo bar'', \<lparr>status = ''approved'', preview = ''foo bar''\<rparr>)]),
      stdin = [],
      events = [Print_new, Review ''foo bar'',
        Save (json_dump [(hash_section ''foo bar'', \<lparr>status = ''approved'', preview = ''foo bar''\<rparr>)]),
        Print_new, Review []]\<rparr> =
   Returned
     \<lparr>new_sections = 2, approved = 1, disapproved = 0, skipped = 1, already_reviewed = 1\<rparr>
     \<lparr>reviewed_sections = [(hash_section ''foo bar'', \<lparr>status = ''approved'', preview = ''foo bar''\<rparr>)],
      db_file = Some (json_dump
        [(hash_section ''foo bar'', \<lparr>status = ''approved'', preview = ''foo bar''\<rparr>)]),
      stdin = [],
      events = [Print_new, Review ''foo bar'',
        Save (json_dump [(hash_section ''foo bar'', \<lparr>status = ''approved'', preview = ''foo bar''\<rparr>)]),
        Print_new, Review [], Print_already ''approved'']\<rparr>
   \<and> review_sections ['' '']
     \<lparr>new_sections = 1, approved = 0, disapproved = 0, skipped = 1, already_reviewed = 0\<rparr>
     \<lparr>reviewed_sections = [], db_file = None, stdin = [''d''],
      events = [Print_new, Review []]\<rparr> =
   Returned
     \<lparr>new_sections = 2, approved = 0, disapproved = 1, skipped = 1, already_reviewed = 0\<rparr>
     \<lparr>reviewed_sections = [(hash_section [], \<lparr>status = ''disapproved'', preview = '' ''\<rparr>)],
      db_file = Some (json_dump [(hash_section [], \<lparr>status = ''disapproved'', preview = '' ''\<rparr>)]),
      stdin = [],
      events = [Print_new, Review [], Print_new, Review '' '',
        Save (json_dump [(hash_section [], \<lparr>status = ''disapproved'', preview = '' ''\<rparr>)])]\<rparr>"
proof -
  have a: "map_of (reviewed_sections
      \<lparr>reviewed_sections = [], db_file = None, stdin = [''a'', ''s''], events = []\<rparr>)
      (hash_section ''foo bar'') = None"
    by simp
  have b: "read_choice (stdin
      \<lparr>reviewed_sections = [], db_file = None, stdin = [''a'', ''s''], events = []\<rparr>) =
      Some (''approved'', [''s''])"
    by (simp add: lower_def lower_char_def)
  have c: "map_of (reviewed_sections
      \<lparr>reviewed_sections = [], db_file = None, stdin = [''s'', ''d''], events = []\<rparr>)
      (hash_section []) = None"
    by simp
  have d: "read_choice (stdin
      \<lparr>reviewed_sections = [], db_file = None, stdin = [''s'', ''d''], events = []\<rparr>) =
      Some (''skipped'', [''d''])"
    by (simp add: lower_def lower_char_def)
  note first = repeated_fingerprint_in_run[OF a b run_approve_then_skip hash_upper_foo_bar, of "[]"]
  note second = repeated_fingerprint_in_run[OF c d run_skip hash_blank, of "[]"]
  show ?thesis
    using first second
    by (simp add: review_section_def Let_def lower_def lower_char_def count_decision_def
        record_decision_def save_database_def hash_blank)
qed

section \<open>Boundary patterns\<close>

lemma push_char_nonempty: "push_char c ps \<noteq> []"
  by (cases ps) simp_all

lemma re_split_nonempty: "re_split la text \<noteq> []"
  by (induction "text") (simp_all add: push_char_nonempty)

lemma push_char_hd: "ps \<noteq> [] \<Longrightarrow> push_char c ps = (c # hd ps) # tl ps"
  by (cases ps) simp_all

lemma re_split_no_match:
  "\<forall>i < length text. text ! i = CHR 0x0A \<longrightarrow> \<not> la (drop (Suc i) text) \<Longrightarrow>
     re_split la text = [text]"
proof (induction "text")
  case Nil
  then show ?case by simp
next
  case (Cons c cs)
  have "\<forall>i < length cs. cs ! i = CHR 0x0A \<longrightarrow> \<not> la (drop (Suc i) cs)"
    using Cons.prems by fastforce
  then have "re_split la cs = [cs]" by (rule Cons.IH)
  moreover have "\<not> (c = CHR 0x0A \<and> la cs)"
    using Cons.prems by fastforce
  ultimately show ?case by auto
qed

lemma re_split_first_match:
  "\<forall>i < length p. p ! i = CHR 0x0A \<longrightarrow> \<not> la (drop (Suc i) (p @ CHR 0x0A # r)) \<Longrightarrow> la r \<Longrightarrow>
     re_split la (p @ CHR 0x0A # r) = p # re_split la r"
proof (induction p)
  case Nil
  then show ?case by simp
next
  case (Cons c cs)
  have "\<forall>i < length cs. cs ! i = CHR 0x0A \<longrightarrow> \<not> la (drop (Suc i) (cs @ CHR 0x0A # r))"
    using Cons.prems(1) by fastforce
  then have "re_split la (cs @ CHR 0x0A # r) = cs # re_split la r"
    using Cons.prems(2) by (rule Cons.IH)
  moreover have "\<not> (c = CHR 0x0A \<and> la (cs @ CHR 0x0A # r))"
    using Cons.prems(1) by fastforce
  ultimately show ?case by auto
qed

lemma join_push_char:
  "ps \<noteq> [] \<Longrightarrow> join sep (push_char c ps) = c # join sep ps"
proof (cases ps)
  case Nil
  assume "ps \<noteq> []"
  with Nil show ?thesis by simp
next
  case (Cons p qs)
  then show ?thesis by (cases qs) simp_all
qed

lemma join_Cons: "ps \<noteq> [] \<Longrightarrow> join sep (p # ps) = p @ sep @ join sep ps"
  by (cases ps) simp_all

lemma join_re_split: "join [CHR 0x0A] (re_split la text) = text"
  by (induction "text") (auto simp: join_push_char join_Cons re_split_nonempty)

lemma heading_run_iff:
  "n \<le> 80 \<Longrightarrow>
   heading_run n s \<longleftrightarrow>
     (\<exists>h r. s = h @ CHR 0x0A # r \<and> 5 \<le> n + length h \<and> n + length h \<le> 80
        \<and> (\<forall>x \<in> set h. heading_char x))"
proof (induction s arbitrary: n)
  case Nil
  then show ?case by simp
next
  case (Cons x xs)
  show ?case
  proof (cases "5 \<le> n \<and> x = CHR 0x0A")
    case True
    then have "x # xs = [] @ CHR 0x0A # xs \<and> 5 \<le> n + length ([]::string) \<and> n + length ([]::string) \<le> 80
        \<and> (\<forall>x \<in> set ([]::string). heading_char x)"
      using Cons.prems by simp
    then have "\<exists>h r. x # xs = h @ CHR 0x0A # r \<and> 5 \<le> n + length h \<and> n + length h \<le> 80
        \<and> (\<forall>x \<in> set h. heading_char x)"
      by blast
    then show ?thesis using True by simp
  next
    case False
    show ?thesis
    proof (cases "n < 80 \<and> heading_char x")
      case True
      then have n: "Suc n \<le> 80" by simp
      have "heading_run n (x # xs) = heading_run (Suc n) xs"
        using False True by auto
      also have "\<dots> \<longleftrightarrow> (\<exists>h r. xs = h @ CHR 0x0A # r \<and> 5 \<le> Suc n + length h \<and> Suc n + length h \<le> 80
        \<and> (\<forall>x \<in> set h. heading_char x))"
        by (rule Cons.IH[OF n])
      also have "\<dots> \<longleftrightarrow> (\<exists>h r. x # xs = h @ CHR 0x0A # r \<and> 5 \<le> n + length h \<and> n + length h \<le> 80
        \<and> (\<forall>x \<in> set h. heading_char x))" (is "?L \<longleftrightarrow> ?R")
      proof
        assume ?L
        then obtain h r where "xs = h @ CHR 0x0A # r" "5 \<le> Suc n + length h"
          "Suc n + length h \<le> 80" "\<forall>x \<in> set h. heading_char x" by blast
        then have "x # xs = (x # h) @ CHR 0x0A # r \<and> 5 \<le> n + length (x # h)
          \<and> n + length (x # h) \<le> 80 \<and> (\<forall>y \<in> set (x # h). heading_char y)"
          using True by simp
        then show ?R by blast
      next
        assume ?R
        then obtain h r where h: "x # xs = h @ CHR 0x0A # r" "5 \<le> n + length h"
          "n + length h \<le> 80" "\<forall>x \<in> set h. heading_char x" by blast
        show ?L
        proof (cases h)
          case Nil
          then show ?thesis using h False by simp
        next
          case (Cons y ys)
          then have "xs = ys @ CHR 0x0A # r \<and> 5 \<le> Suc n + length ys \<and> Suc n + length ys \<le> 80
            \<and> (\<forall>x \<in> set ys. heading_char x)"
            using h by simp
          then show ?thesis by blast
        qed
      qed
      finally show ?thesis .
    next
      case nogo: False
      have hr: "\<not> heading_run n (x # xs)"
        using False nogo by auto
      have "\<not> (\<exists>h r. x # xs = h @ CHR 0x0A # r \<and> 5 \<le> n + length h \<and> n + length h \<le> 80
        \<and> (\<forall>x \<in> set h. heading_char x))"
      proof
        assume "\<exists>h r. x # xs = h @ CHR 0x0A # r \<and> 5 \<le> n + length h \<and> n + length h \<le> 80
        \<and> (\<forall>x \<in> set h. heading_char x)"
        then obtain h r where h: "x # xs = h @ CHR 0x0A # r" "5 \<le> n + length h"
          "n + length h \<le> 80" "\<forall>x \<in> set h. heading_char x" by blast
        show False
        proof (cases h)
          case Nil
          then show ?thesis using h False by simp
        next
          case (Cons y ys)
          then show ?thesis using h nogo by auto
        qed
      qed
      with hr show ?thesis by blast
    qed
  qed
qed

lemma la_header_iff:
  "la_header s \<longleftrightarrow>
     (\<exists>c h r. s = c # h @ CHR 0x0A # r \<and> isupper_AZ c \<and> 5 \<le> length h \<and> length h \<le> 80
        \<and> (\<forall>x \<in> set h. heading_char x))"
proof (cases s)
  case Nil
  then show ?thesis by (simp add: la_header_def)
next
  case (Cons c r)
  then show ?thesis
    using heading_run_iff[of 0 r] by (auto simp: la_header_def)
qed

lemma isdigit_not_isspace: "isdigit c \<Longrightarrow> \<not> isspace c"
  by (auto simp: isdigit_def isspace_code)

lemma la_numbered_iff:
  "la_numbered s \<longleftrightarrow>
     (\<exists>ds c r. s = ds @ CHR ''.'' # c # r \<and> ds \<noteq> [] \<and> (\<forall>d \<in> set ds. isdigit d) \<and> isspace c)"
  (is "?L \<longleftrightarrow> ?R")
proof
  assume l: ?L
  let ?ds = "takeWhile isdigit s"
  from l obtain a b r where d: "dropWhile isdigit s = a # b # r" "a = CHR ''.''" "isspace b"
    by (auto simp: la_numbered_def split: list.splits)
  have "s = ?ds @ dropWhile isdigit s" by simp
  then have "s = ?ds @ CHR ''.'' # b # r" using d by simp
  moreover have "?ds \<noteq> []" using l by (simp add: la_numbered_def)
  moreover have "\<forall>d \<in> set ?ds. isdigit d" by (auto dest: set_takeWhileD)
  ultimately show ?R using d(3) by blast
next
  assume ?R
  then obtain ds c r where s: "s = ds @ CHR ''.'' # c # r" "ds \<noteq> []"
    "\<forall>d \<in> set ds. isdigit d" "isspace c" by blast
  have nd: "\<not> isdigit (CHR ''.'')" by (simp add: isdigit_def)
  have "takeWhile isdigit s = ds"
    using s(1,3) nd by (simp add: takeWhile_tail)
  moreover have "dropWhile isdigit s = CHR ''.'' # c # r"
    using s(1,3) nd by (simp add: dropWhile_append3)
  ultimately show ?L using s by (simp add: la_numbered_def)
qed

lemma la_word_number_iff:
  "la_word_number w s \<longleftrightarrow>
     (\<exists>ws d r. s = w @ ws @ d # r \<and> ws \<noteq> [] \<and> (\<forall>x \<in> set ws. isspace x) \<and> isdigit d)"
  (is "?L \<longleftrightarrow> ?R")
proof
  assume l: ?L
  let ?r = "drop (length w) s"
  let ?ws = "takeWhile isspace ?r"
  from l have w: "take (length w) s = w" and ne: "?ws \<noteq> []"
    by (simp_all add: la_word_number_def Let_def)
  from l obtain d r where d: "dropWhile isspace ?r = d # r" "isdigit d"
    by (auto simp: la_word_number_def Let_def split: list.splits)
  have "s = take (length w) s @ ?r" by simp
  also have "?r = ?ws @ dropWhile isspace ?r" by simp
  finally have "s = w @ ?ws @ d # r" using w d by simp
  moreover have "\<forall>x \<in> set ?ws. isspace x" by (auto dest: set_takeWhileD)
  ultimately show ?R using ne d(2) by blast
next
  assume ?R
  then obtain ws d r where s: "s = w @ ws @ d # r" "ws \<noteq> []"
    "\<forall>x \<in> set ws. isspace x" "isdigit d" by blast
  have nd: "\<not> isspace d" using s(4) by (rule isdigit_not_isspace)
  have "takeWhile isspace (ws @ d # r) = ws"
    using s(3) nd by (simp add: takeWhile_tail)
  moreover have "dropWhile isspace (ws @ d # r) = d # r"
    using s(3) nd by (simp add: dropWhile_append3)
  ultimately show ?L using s by (simp add: la_word_number_def Let_def)
qed

text \<open>
  Claim C4, as stated, fails: the patterns need no blank line. The text \<open>x\nABCDEF\ny\<close> has
  no blank line and pattern (a) splits it in two; so does pattern (b) with \<open>x\n1. y\<close>.
\<close>

theorem split_without_blank_line:
  "re_split la_header (''x'' @ [CHR 0x0A] @ ''ABCDEF'' @ [CHR 0x0A] @ ''y'') =
     [''x'', ''ABCDEF'' @ [CHR 0x0A] @ ''y'']
   \<and> \<not> has_blank_line (''x'' @ [CHR 0x0A] @ ''ABCDEF'' @ [CHR 0x0A] @ ''y'')
   \<and> re_split la_numbered (''x'' @ [CHR 0x0A] @ ''1. y'') = [''x'', ''1. y'']
   \<and> \<not> has_blank_line (''x'' @ [CHR 0x0A] @ ''1. y'')"
  by (simp add: la_header_def la_numbered_def isupper_AZ_def heading_char_def isspace_def
      isdigit_def has_blank_line_def strip_def)

text \<open>
  Claim C4, amended. Each pattern splits the text at every newline character whose
  following text satisfies the pattern's lookahead, and nowhere else: a text with no such
  newline is one piece, the first piece ends at the first such newline, and the pieces
  joined by newlines are the text. The lookahead of (a) holds when the following text is
  an uppercase letter A-Z, then 5 to 80 characters each an uppercase letter, a whitespace
  character (a newline included), \<open>&\<close>, an apostrophe or a hyphen, then a newline; of (b),
  one or more digits, a full stop and a whitespace character; of (c) and (d), the word
  \<open>Article\<close> or \<open>Section\<close>, one or more whitespace characters and a digit.
\<close>

theorem boundary_patterns:
  "((\<forall>i < length doc. doc ! i = CHR 0x0A \<longrightarrow> \<not> la (drop (Suc i) doc)) \<longrightarrow>
      re_split la doc = [doc])
   \<and> ((\<forall>i < length p. p ! i = CHR 0x0A \<longrightarrow> \<not> la (drop (Suc i) (p @ CHR 0x0A # r))) \<and> la r \<longrightarrow>
      re_split la (p @ CHR 0x0A # r) = p # re_split la r)
   \<and> join [CHR 0x0A] (re_split la doc) = doc
   \<and> (la_header s \<longleftrightarrow>
        (\<exists>c h t. s = c # h @ CHR 0x0A # t \<and> isupper_AZ c \<and> 5 \<le> length h \<and> length h \<le> 80
           \<and> (\<forall>x \<in> set h. isupper_AZ x \<or> isspace x \<or> x = CHR ''&'' \<or> x = CHR 0x27 \<or> x = CHR ''-'')))
   \<and> (la_numbered s \<longleftrightarrow>
        (\<exists>ds c t. s = ds @ CHR ''.'' # c # t \<and> ds \<noteq> [] \<and> (\<forall>d \<in> set ds. isdigit d) \<and> isspace c))
   \<and> (la_article s \<longleftrightarrow>
        (\<exists>ws d t. s = ''Article'' @ ws @ d # t \<and> ws \<noteq> [] \<and> (\<forall>x \<in> set ws. isspace x) \<and> isdigit d))
   \<and> (la_section s \<longleftrightarrow>
        (\<exists>ws d t. s = ''Section'' @ ws @ d # t \<and> ws \<noteq> [] \<and> (\<forall>x \<in> set ws. isspace x) \<and> isdigit d))
   \<and> patterns = [la_header, la_numbered, la_article, la_section]"
proof -
  have "la_header s \<longleftrightarrow>
        (\<exists>c h t. s = c # h @ CHR 0x0A # t \<and> isupper_AZ c \<and> 5 \<le> length h \<and> length h \<le> 80
           \<and> (\<forall>x \<in> set h. isupper_AZ x \<or> isspace x \<or> x = CHR ''&'' \<or> x = CHR 0x27 \<or> x = CHR ''-''))"
    unfolding la_header_iff heading_char_def ..
  moreover have "la_article s \<longleftrightarrow>
        (\<exists>ws d t. s = ''Article'' @ ws @ d # t \<and> ws \<noteq> [] \<and> (\<forall>x \<in> set ws. isspace x) \<and> isdigit d)"
    unfolding la_article_def by (rule la_word_number_iff)
  moreover have "la_section s \<longleftrightarrow>
        (\<exists>ws d t. s = ''Section'' @ ws @ d # t \<and> ws \<noteq> [] \<and> (\<forall>x \<in> set ws. isspace x) \<and> isdigit d)"
    unfolding la_section_def by (rule la_word_number_iff)
  moreover note la_numbered_iff[of s] join_re_split[of la doc] patterns_def
  moreover have "(\<forall>i < length doc. doc ! i = CHR 0x0A \<longrightarrow> \<not> la (drop (Suc i) doc)) \<longrightarrow>
      re_split la doc = [doc]"
    using re_split_no_match[of doc la] by blast
  moreover have "(\<forall>i < length p. p ! i = CHR 0x0A \<longrightarrow> \<not> la (drop (Suc i) (p @ CHR 0x0A # r))) \<and> la r \<longrightarrow>
      re_split la (p @ CHR 0x0A # r) = p # re_split la r"
    using re_split_first_match[of p la r] by blast
  ultimately show ?thesis by blast
qed

text \<open>The theorem at the text \<open>x\nABCDEF\ny\<close>.\<close>

theorem boundary_patterns_witness:
  "re_split la_header (''x'' @ CHR 0x0A # ''ABCDEF'' @ [CHR 0x0A] @ ''y'') =
     [''x'', ''ABCDEF'' @ [CHR 0x0A] @ ''y'']
   \<and> la_header (''ABCDEF'' @ [CHR 0x0A] @ ''y'')"
proof -
  let ?r = "''ABCDEF'' @ [CHR 0x0A] @ ''y''"
  have la: "la_header ?r"
    by (simp add: la_header_def isupper_AZ_def heading_char_def)
  have p: "\<forall>i < length ''x''. ''x'' ! i = CHR 0x0A \<longrightarrow> \<not> la_header (drop (Suc i) (''x'' @ CHR 0x0A # ?r))"
    by simp
  have r: "\<forall>i < length ?r. ?r ! i = CHR 0x0A \<longrightarrow> \<not> la_header (drop (Suc i) ?r)"
  proof (intro allI impI)
    fix i
    assume "i < length ?r" "?r ! i = CHR 0x0A"
    then have "i = 6"
      by (simp add: nth_Cons' split: if_splits)
    then show "\<not> la_header (drop (Suc i) ?r)"
      by (simp add: la_header_def isupper_AZ_def)
  qed
  from boundary_patterns[of ?r la_header "''x''" ?r] p la r
  have "re_split la_header (''x'' @ CHR 0x0A # ?r) = ''x'' # re_split la_header ?r"
    and "re_split la_header ?r = [?r]"
    by blast+
  with la show ?thesis by simp
qed

section \<open>The pattern cascade\<close>

lemma strip_nonempty: "p \<noteq> [] \<Longrightarrow> \<not> isspace (hd p) \<Longrightarrow> strip p \<noteq> []"
proof -
  assume p: "p \<noteq> []" and h: "\<not> isspace (hd p)"
  have "dropWhile isspace p = p" using h by (simp add: dropWhile_eq_self_iff)
  moreover have "dropWhile isspace (rev p) \<noteq> []"
  proof
    assume "dropWhile isspace (rev p) = []"
    then have "\<forall>x \<in> set p. isspace x" by simp
    with p h show False by (cases p) auto
  qed
  ultimately show ?thesis by (simp add: strip_def)
qed

text \<open>Every piece after the first begins with the character the lookahead saw.\<close>

lemma re_split_hd:
  "cs \<noteq> [] \<Longrightarrow> hd cs \<noteq> CHR 0x0A \<Longrightarrow>
     hd (re_split la cs) \<noteq> [] \<and> hd (hd (re_split la cs)) = hd cs"
  by (cases cs) (simp_all add: push_char_hd re_split_nonempty)

lemma tl_push_char: "ps \<noteq> [] \<Longrightarrow> tl (push_char c ps) = tl ps"
  by (cases ps) simp_all

lemma re_split_later_pieces:
  assumes la: "\<And>cs. la cs \<Longrightarrow> cs \<noteq> [] \<and> \<not> isspace (hd cs)"
  shows "\<forall>p \<in> set (tl (re_split la doc)). p \<noteq> [] \<and> \<not> isspace (hd p)"
proof (induction doc)
  case Nil
  then show ?case by simp
next
  case (Cons c cs)
  show ?case
  proof (cases "c = CHR 0x0A \<and> la cs")
    case True
    then have cs: "cs \<noteq> []" "\<not> isspace (hd cs)" using la by blast+
    then have "hd cs \<noteq> CHR 0x0A" by (auto simp: isspace_def)
    with cs have "hd (re_split la cs) \<noteq> [] \<and> hd (hd (re_split la cs)) = hd cs"
      by (intro re_split_hd)
    with cs have "hd (re_split la cs) \<noteq> [] \<and> \<not> isspace (hd (hd (re_split la cs)))"
      by simp
    moreover have "re_split la cs = hd (re_split la cs) # tl (re_split la cs)"
      by (simp add: re_split_nonempty)
    ultimately have "\<forall>p \<in> set (re_split la cs). p \<noteq> [] \<and> \<not> isspace (hd p)"
      using Cons.IH by (metis set_ConsD)
    then show ?thesis using True by simp
  next
    case False
    then show ?thesis using Cons.IH by (auto simp: tl_push_char re_split_nonempty)
  qed
qed

lemma length_trimmed_nonempty:
  assumes la: "\<And>cs. la cs \<Longrightarrow> cs \<noteq> [] \<and> \<not> isspace (hd cs)"
  shows "length (re_split la doc) \<le> Suc (length (trimmed_nonempty (re_split la doc)))"
proof -
  let ?ps = "re_split la doc"
  have ps: "?ps = hd ?ps # tl ?ps" by (simp add: re_split_nonempty)
  have "\<forall>p \<in> set (tl ?ps). strip p \<noteq> []"
    using re_split_later_pieces[of la doc, OF la] strip_nonempty by blast
  then have "filter (\<lambda>s. strip s \<noteq> []) (tl ?ps) = tl ?ps"
    by (simp add: filter_id_conv)
  then have "length (tl ?ps) \<le> length (filter (\<lambda>s. strip s \<noteq> []) ?ps)"
    by (subst (2) ps) simp
  then show ?thesis
    by (subst ps) (simp add: trimmed_nonempty_def)
qed

lemma la_header_start: "la_header cs \<Longrightarrow> cs \<noteq> [] \<and> \<not> isspace (hd cs)"
  by (cases cs) (auto simp: la_header_def isupper_AZ_def isspace_code)

lemma la_numbered_start: "la_numbered cs \<Longrightarrow> cs \<noteq> [] \<and> \<not> isspace (hd cs)"
  by (cases cs) (auto simp: la_numbered_def isdigit_not_isspace split: if_splits)

lemma la_word_number_start:
  "w \<noteq> [] \<Longrightarrow> \<not> isspace (hd w) \<Longrightarrow> la_word_number w cs \<Longrightarrow> cs \<noteq> [] \<and> \<not> isspace (hd cs)"
  by (cases cs; cases w) (auto simp: la_word_number_def)

lemma patterns_start:
  "la \<in> set patterns \<Longrightarrow> la cs \<Longrightarrow> cs \<noteq> [] \<and> \<not> isspace (hd cs)"
  using la_header_start[of cs] la_numbered_start[of cs]
    la_word_number_start[of "''Article''" cs] la_word_number_start[of "''Section''" cs]
  by (auto simp: patterns_def la_article_def la_section_def isspace_def)

lemma try_patterns_first:
  "\<forall>q \<in> set pre. length (re_split q doc) \<le> 5 \<Longrightarrow> length (re_split p doc) > 5 \<Longrightarrow>
     try_patterns (pre @ p # post) doc = trimmed_nonempty (re_split p doc)"
  by (induction pre) (auto simp: Let_def)

lemma try_patterns_none:
  "\<forall>q \<in> set ps. length (re_split q doc) \<le> 5 \<Longrightarrow> try_patterns ps doc = []"
  by (induction ps) (auto simp: Let_def)

lemma split_into_sections_accepted:
  assumes "patterns = pre @ p # post"
    and "\<forall>q \<in> set pre. length (re_split q doc) \<le> 5"
    and "length (re_split p doc) > 5"
  shows "split_into_sections doc = trimmed_nonempty (re_split p doc)"
proof -
  have "p \<in> set patterns" unfolding assms(1) by simp
  then have "length (re_split p doc) \<le> Suc (length (trimmed_nonempty (re_split p doc)))"
    by (intro length_trimmed_nonempty patterns_start)
  then have "\<not> length (trimmed_nonempty (re_split p doc)) < 5"
    using assms(3) by simp
  moreover have "try_patterns patterns doc = trimmed_nonempty (re_split p doc)"
    unfolding assms(1) using assms(2,3) by (rule try_patterns_first)
  ultimately show ?thesis
    by (simp add: split_into_sections_def Let_def)
qed

lemma split_into_sections_fallback:
  assumes "\<forall>q \<in> set patterns. length (re_split q doc) \<le> 5"
  shows "split_into_sections doc = fallback_sections doc"
  using try_patterns_none[OF assms]
  by (simp add: split_into_sections_def Let_def fallback_sections_def not_less)

lemma length_trimmed_le: "length (trimmed_nonempty ps) \<le> length ps"
  by (simp add: trimmed_nonempty_def)

lemma five_headings:
  "re_split la_header
     ''\<newline>ABCDEF\<newline>x\<newline>ABCDEF\<newline>x\<newline>ABCDEF\<newline>x\<newline>ABCDEF\<newline>x\<newline>ABCDEF\<newline>x'' =
   [[], ''ABCDEF\<newline>x'', ''ABCDEF\<newline>x'', ''ABCDEF\<newline>x'', ''ABCDEF\<newline>x'', ''ABCDEF\<newline>x'']"
  by (simp add: la_header_def isupper_AZ_def heading_char_def isspace_def)

lemma five_headings_trimmed:
  "trimmed_nonempty
     [[], ''ABCDEF\<newline>x'', ''ABCDEF\<newline>x'', ''ABCDEF\<newline>x'', ''ABCDEF\<newline>x'', ''ABCDEF\<newline>x''] =
   [''ABCDEF\<newline>x'', ''ABCDEF\<newline>x'', ''ABCDEF\<newline>x'', ''ABCDEF\<newline>x'', ''ABCDEF\<newline>x'']"
  by (simp add: trimmed_nonempty_def strip_def isspace_def)

lemma five_headings_other_patterns:
  "re_split la_numbered
     ''\<newline>ABCDEF\<newline>x\<newline>ABCDEF\<newline>x\<newline>ABCDEF\<newline>x\<newline>ABCDEF\<newline>x\<newline>ABCDEF\<newline>x'' =
   [''\<newline>ABCDEF\<newline>x\<newline>ABCDEF\<newline>x\<newline>ABCDEF\<newline>x\<newline>ABCDEF\<newline>x\<newline>ABCDEF\<newline>x'']"
  "re_split la_article
     ''\<newline>ABCDEF\<newline>x\<newline>ABCDEF\<newline>x\<newline>ABCDEF\<newline>x\<newline>ABCDEF\<newline>x\<newline>ABCDEF\<newline>x'' =
   [''\<newline>ABCDEF\<newline>x\<newline>ABCDEF\<newline>x\<newline>ABCDEF\<newline>x\<newline>ABCDEF\<newline>x\<newline>ABCDEF\<newline>x'']"
  "re_split la_section
     ''\<newline>ABCDEF\<newline>x\<newline>ABCDEF\<newline>x\<newline>ABCDEF\<newline>x\<newline>ABCDEF\<newline>x\<newline>ABCDEF\<newline>x'' =
   [''\<newline>ABCDEF\<newline>x\<newline>ABCDEF\<newline>x\<newline>ABCDEF\<newline>x\<newline>ABCDEF\<newline>x\<newline>ABCDEF\<newline>x'']"
  by (simp_all add: la_numbered_def la_article_def la_section_def la_word_number_def isdigit_def)

lemma five_headings_fallback:
  "fallback_sections
     ''\<newline>ABCDEF\<newline>x\<newline>ABCDEF\<newline>x\<newline>ABCDEF\<newline>x\<newline>ABCDEF\<newline>x\<newline>ABCDEF\<newline>x'' =
   [''\<newline>ABCDEF\<newline>x\<newline>ABCDEF\<newline>x\<newline>ABCDEF\<newline>x\<newline>ABCDEF\<newline>x\<newline>ABCDEF\<newline>x'']"
  by (simp add: fallback_sections_def paragraph_sections_def line_sections_def strip_def isspace_def
      chunk_by_size_def split_sentences_def sentence_end_def chunk_step_def chunk_finish_def)

lemma six_pieces:
  "re_split la_header
     ''intro\<newline>ABCDEF\<newline>x\<newline>ABCDEF\<newline>x\<newline>ABCDEF\<newline>x\<newline>ABCDEF\<newline>x\<newline>ABCDEF\<newline>x'' =
   [''intro'', ''ABCDEF\<newline>x'', ''ABCDEF\<newline>x'', ''ABCDEF\<newline>x'', ''ABCDEF\<newline>x'', ''ABCDEF\<newline>x'']"
  by (simp add: la_header_def isupper_AZ_def heading_char_def isspace_def)

lemma six_pieces_trimmed:
  "trimmed_nonempty
     [''intro'', ''ABCDEF\<newline>x'', ''ABCDEF\<newline>x'', ''ABCDEF\<newline>x'', ''ABCDEF\<newline>x'', ''ABCDEF\<newline>x''] =
   [''intro'', ''ABCDEF\<newline>x'', ''ABCDEF\<newline>x'', ''ABCDEF\<newline>x'', ''ABCDEF\<newline>x'', ''ABCDEF\<newline>x'']"
  by (simp add: trimmed_nonempty_def strip_def isspace_def)

text \<open>
  Claim C1, as stated, fails. On the text of five headings below, pattern (a) yields
  exactly 5 non-empty trimmed pieces, which is not more than 5, yet its split is accepted:
  the piece before the first heading is empty and is counted. The rule as the
  specification words it would go on to the fallbacks and return the whole text.
\<close>

theorem five_pieces_accepted:
  "split_into_sections
     ''\<newline>ABCDEF\<newline>x\<newline>ABCDEF\<newline>x\<newline>ABCDEF\<newline>x\<newline>ABCDEF\<newline>x\<newline>ABCDEF\<newline>x'' =
   [''ABCDEF\<newline>x'', ''ABCDEF\<newline>x'', ''ABCDEF\<newline>x'', ''ABCDEF\<newline>x'', ''ABCDEF\<newline>x'']
   \<and> length (trimmed_nonempty (re_split la_header
     ''\<newline>ABCDEF\<newline>x\<newline>ABCDEF\<newline>x\<newline>ABCDEF\<newline>x\<newline>ABCDEF\<newline>x\<newline>ABCDEF\<newline>x'')) = 5
   \<and> spec_segment
     ''\<newline>ABCDEF\<newline>x\<newline>ABCDEF\<newline>x\<newline>ABCDEF\<newline>x\<newline>ABCDEF\<newline>x\<newline>ABCDEF\<newline>x'' =
   [''\<newline>ABCDEF\<newline>x\<newline>ABCDEF\<newline>x\<newline>ABCDEF\<newline>x\<newline>ABCDEF\<newline>x\<newline>ABCDEF\<newline>x'']"
proof -
  let ?doc = "''\<newline>ABCDEF\<newline>x\<newline>ABCDEF\<newline>x\<newline>ABCDEF\<newline>x\<newline>ABCDEF\<newline>x\<newline>ABCDEF\<newline>x''"
  have "split_into_sections ?doc =
      [''ABCDEF\<newline>x'', ''ABCDEF\<newline>x'', ''ABCDEF\<newline>x'', ''ABCDEF\<newline>x'', ''ABCDEF\<newline>x'']"
    unfolding split_into_sections_def patterns_def try_patterns.simps five_headings
    by (simp add: five_headings_trimmed)
  moreover have "length (trimmed_nonempty (re_split la_header ?doc)) = 5"
    unfolding five_headings five_headings_trimmed by simp
  moreover have "spec_segment ?doc = [?doc]"
    unfolding spec_segment_def patterns_def spec_try_patterns.simps five_headings
      five_headings_trimmed five_headings_other_patterns five_headings_fallback
    by (simp add: trimmed_nonempty_def)
  ultimately show ?thesis by blast
qed

text \<open>
  Claim C1, amended. The patterns are tried in their order, and a pattern is accepted when
  its split of the text has strictly more than 5 pieces, empty and blank ones counted.
  The first pattern accepted gives the section list, its pieces trimmed and the empty
  ones dropped, and no later pattern or fallback is applied. When no pattern is accepted
  the fallbacks give the result. In particular a text that pattern (a) splits into
  exactly 6 non-empty trimmed pieces is segmented into those 6 pieces.
\<close>

theorem pattern_threshold:
  "(patterns = pre @ p # post \<and> (\<forall>q \<in> set pre. length (re_split q doc) \<le> 5)
       \<and> length (re_split p doc) > 5 \<longrightarrow>
      split_into_sections doc = trimmed_nonempty (re_split p doc))
   \<and> ((\<forall>q \<in> set patterns. length (re_split q doc) \<le> 5) \<longrightarrow>
      split_into_sections doc = fallback_sections doc)
   \<and> (length (trimmed_nonempty (re_split la_header doc)) = 6 \<longrightarrow>
      split_into_sections doc = trimmed_nonempty (re_split la_header doc))"
proof (intro conjI impI)
  assume "patterns = pre @ p # post \<and> (\<forall>q \<in> set pre. length (re_split q doc) \<le> 5)
       \<and> length (re_split p doc) > 5"
  then show "split_into_sections doc = trimmed_nonempty (re_split p doc)"
    using split_into_sections_accepted by blast
next
  assume "\<forall>q \<in> set patterns. length (re_split q doc) \<le> 5"
  then show "split_into_sections doc = fallback_sections doc"
    by (rule split_into_sections_fallback)
next
  assume six: "length (trimmed_nonempty (re_split la_header doc)) = 6"
  have "length (re_split la_header doc) > 5"
    using length_trimmed_le[of "re_split la_header doc"] six by simp
  moreover have "patterns = [] @ la_header # [la_numbered, la_article, la_section]"
    by (simp add: patterns_def)
  ultimately show "split_into_sections doc = trimmed_nonempty (re_split la_header doc)"
    by (intro split_into_sections_accepted[where pre = "[]"]) simp_all
qed

text \<open>
  The theorem at a text with an introduction and five headings (6 non-empty pieces), and
  at the text of five headings alone.
\<close>

theorem pattern_threshold_witness:
  "split_into_sections
     ''intro\<newline>ABCDEF\<newline>x\<newline>ABCDEF\<newline>x\<newline>ABCDEF\<newline>x\<newline>ABCDEF\<newline>x\<newline>ABCDEF\<newline>x'' =
   [''intro'', ''ABCDEF\<newline>x'', ''ABCDEF\<newline>x'', ''ABCDEF\<newline>x'', ''ABCDEF\<newline>x'', ''ABCDEF\<newline>x'']
   \<and> split_into_sections
     ''\<newline>ABCDEF\<newline>x\<newline>ABCDEF\<newline>x\<newline>ABCDEF\<newline>x\<newline>ABCDEF\<newline>x\<newline>ABCDEF\<newline>x'' =
   [''ABCDEF\<newline>x'', ''ABCDEF\<newline>x'', ''ABCDEF\<newline>x'', ''ABCDEF\<newline>x'', ''ABCDEF\<newline>x'']"
proof -
  let ?six = "''intro\<newline>ABCDEF\<newline>x\<newline>ABCDEF\<newline>x\<newline>ABCDEF\<newline>x\<newline>ABCDEF\<newline>x\<newline>ABCDEF\<newline>x''"
  let ?five = "''\<newline>ABCDEF\<newline>x\<newline>ABCDEF\<newline>x\<newline>ABCDEF\<newline>x\<newline>ABCDEF\<newline>x\<newline>ABCDEF\<newline>x''"
  have six: "length (trimmed_nonempty (re_split la_header ?six)) = 6"
    unfolding six_pieces six_pieces_trimmed by simp
  have p: "patterns = [] @ la_header # [la_numbered, la_article, la_section]"
    by (simp add: patterns_def)
  have five: "length (re_split la_header ?five) > 5"
    unfolding five_headings by simp
  from pattern_threshold[of "[]" la_header "[la_numbered, la_article, la_section]" ?six] six
  have "split_into_sections ?six = trimmed_nonempty (re_split la_header ?six)"
    by blast
  moreover
  from pattern_threshold[of "[]" la_header "[la_numbered, la_article, la_section]" ?five] p five
  have "split_into_sections ?five = trimmed_nonempty (re_split la_header ?five)"
    by simp
  ultimately show ?thesis
    unfolding six_pieces six_pieces_trimmed five_headings five_headings_trimmed by blast
qed

section \<open>Size-based chunking\<close>


















end
